theory Spec2Isabelle
  imports Complex_Main "HOL-Library.AList"
begin

section \<open>Values of the host language\<close>

text \<open>
  A value that can be thrown, or attached to a cache event as its \<open>error\<close>.
  \<open>JSError m\<close> is an instance of \<open>Error\<close> whose \<open>message\<close> is \<open>m\<close>; the other
  constructors are values that are not instances of \<open>Error\<close>.
\<close>

datatype js_value =
    JSError (message: string)
  | JSString string
  | JSNumber int
  | JSUndefined

fun instanceof_Error :: "js_value \<Rightarrow> bool" where
  "instanceof_Error (JSError m) = True"
| "instanceof_Error v = False"

text \<open>
  Decimal rendering of an integer, as a template literal \<open>`${n}`\<close> renders an integral
  number.
\<close>

definition digit_char :: "nat \<Rightarrow> char" where
  "digit_char d = ''0123456789'' ! d"

function show_nat :: "nat \<Rightarrow> string" where
  "show_nat n =
     (if n < 10 then [digit_char n] else show_nat (n div 10) @ [digit_char (n mod 10)])"
  by pat_completeness auto
termination
  by (relation "measure id") auto

definition show_int :: "int \<Rightarrow> string" where
  "show_int i = (if i < 0 then CHR ''-'' # show_nat (nat (- i)) else show_nat (nat i))"

text \<open>\<open>String.prototype.toUpperCase\<close> and \<open>toLowerCase\<close> on ASCII text.\<close>

definition toUpperCase_char :: "char \<Rightarrow> char" where
  "toUpperCase_char c =
     (case map_of (zip ''abcdefghijklmnopqrstuvwxyz'' ''ABCDEFGHIJKLMNOPQRSTUVWXYZ'') c of
        None \<Rightarrow> c
      | Some u \<Rightarrow> u)"

definition toUpperCase :: "string \<Rightarrow> string" where
  "toUpperCase s = map toUpperCase_char s"

definition toLowerCase_char :: "char \<Rightarrow> char" where
  "toLowerCase_char c =
     (case map_of (zip ''ABCDEFGHIJKLMNOPQRSTUVWXYZ'' ''abcdefghijklmnopqrstuvwxyz'') c of
        None \<Rightarrow> c
      | Some l \<Rightarrow> l)"

definition toLowerCase :: "string \<Rightarrow> string" where
  "toLowerCase s = map toLowerCase_char s"

text \<open>
  A \<open>Map\<close> of the host language keeps its entries in insertion order: \<open>set\<close> on a
  present key replaces the value in place, on an absent key it appends; \<open>values()\<close>
  iterates in that order.
\<close>

type_synonym ('k, 'v) js_map = "('k \<times> 'v) list"

definition Map_has :: "'k \<Rightarrow> ('k, 'v) js_map \<Rightarrow> bool" where
  "Map_has k m = (map_of m k \<noteq> None)"

definition Map_get :: "'k \<Rightarrow> ('k, 'v) js_map \<Rightarrow> 'v option" where
  "Map_get k m = map_of m k"

definition Map_set :: "'k \<Rightarrow> 'v \<Rightarrow> ('k, 'v) js_map \<Rightarrow> ('k, 'v) js_map" where
  "Map_set k v m = AList.update k v m"

definition Map_delete :: "'k \<Rightarrow> ('k, 'v) js_map \<Rightarrow> ('k, 'v) js_map" where
  "Map_delete k m = AList.delete k m"

definition Map_values :: "('k, 'v) js_map \<Rightarrow> 'v list" where
  "Map_values m = map snd m"

section \<open>The tracer\<close>

text \<open>
  The tracing SDK is an external collaborator. What a plugin does is the sequence of
  calls it makes on the tracer and on the spans the tracer hands out, so the tracer is
  the log of those calls. A span handle is a number; \<open>startSpan\<close> hands out the next
  unused one.
\<close>

type_synonym span = nat

datatype SpanStatusCode = UNSET | OK | ERROR

datatype attr_value = AStr string | ANum real | ABool bool

type_synonym attributes = "(string \<times> attr_value) list"

datatype span_call =
    StartSpan span string "real option" attributes
  | SetAttribute span string attr_value
  | SetAttributes span attributes
  | SetStatus span SpanStatusCode "string option"
  | RecordException span js_value
  | End span "real option"

record tracer =
  next_span :: nat
  calls :: "span_call list"

definition new_tracer :: tracer where
  "new_tracer = \<lparr>next_span = 0, calls = []\<rparr>"

definition startSpan :: "string \<Rightarrow> real option \<Rightarrow> attributes \<Rightarrow> tracer \<Rightarrow> span \<times> tracer" where
  "startSpan name startTime attrs t =
     (next_span t,
      t\<lparr>next_span := Suc (next_span t),
        calls := calls t @ [StartSpan (next_span t) name startTime attrs]\<rparr>)"

definition span_call :: "span_call \<Rightarrow> tracer \<Rightarrow> tracer" where
  "span_call c t = t\<lparr>calls := calls t @ [c]\<rparr>"

definition setAttribute :: "span \<Rightarrow> string \<Rightarrow> attr_value \<Rightarrow> tracer \<Rightarrow> tracer" where
  "setAttribute sp k v t = span_call (SetAttribute sp k v) t"

definition setAttributes :: "span \<Rightarrow> attributes \<Rightarrow> tracer \<Rightarrow> tracer" where
  "setAttributes sp attrs t = span_call (SetAttributes sp attrs) t"

definition setStatus :: "span \<Rightarrow> SpanStatusCode \<Rightarrow> string option \<Rightarrow> tracer \<Rightarrow> tracer" where
  "setStatus sp code msg t = span_call (SetStatus sp code msg) t"

definition recordException :: "span \<Rightarrow> js_value \<Rightarrow> tracer \<Rightarrow> tracer" where
  "recordException sp e t = span_call (RecordException sp e) t"

definition span_end :: "span \<Rightarrow> real option \<Rightarrow> tracer \<Rightarrow> tracer" where
  "span_end sp endTime t = span_call (End sp endTime) t"

text \<open>The spans a log has started, the spans it has ended, and the ones still open.\<close>

fun started_by :: "span_call \<Rightarrow> span list" where
  "started_by (StartSpan sp name st attrs) = [sp]"
| "started_by c = []"

fun ended_by :: "span_call \<Rightarrow> span list" where
  "ended_by (End sp et) = [sp]"
| "ended_by c = []"

definition started :: "span_call list \<Rightarrow> span list" where
  "started cs = concat (map started_by cs)"

definition ended :: "span_call list \<Rightarrow> span list" where
  "ended cs = concat (map ended_by cs)"

definition open_spans :: "span_call list \<Rightarrow> span list" where
  "open_spans cs = filter (\<lambda>sp. sp \<notin> set (ended cs)) (started cs)"

section \<open>The data-fetch cache plugin (createQueryPlugin)\<close>

text \<open>
  \<open>queryKey_json\<close> is the text \<open>JSON.stringify(queryKey)\<close> returns, the only use the
  plugin makes of the key; \<open>mutationKey_json\<close> likewise, \<open>None\<close> when the mutation has
  no key. An action's \<open>error\<close> is \<open>JSUndefined\<close> when the action carries none.
\<close>

record QueryLike =
  queryKey_json :: string
  queryHash :: string

record MutationLike =
  mutationId :: int
  mutationKey_json :: "string option"

record cache_action =
  action_type :: string
  action_error :: js_value

record QueryCacheEvent =
  qe_type :: string
  qe_query :: QueryLike
  qe_action :: "cache_action option"

record MutationCacheEvent =
  me_type :: string
  me_mutation :: "MutationLike option"
  me_action :: "cache_action option"

record query_plugin =
  querySpans :: "(string, span) js_map"
  mutationSpans :: "(int, span) js_map"

definition new_query_plugin :: query_plugin where
  "new_query_plugin = \<lparr>querySpans = [], mutationSpans = []\<rparr>"

text \<open>
  The status message of a failed operation:
  \<open>error instanceof Error ? error.message : "Unknown error"\<close>.
\<close>

definition cache_error_message :: "js_value \<Rightarrow> string" where
  "cache_error_message e = (if instanceof_Error e then message e else ''Unknown error'')"

text \<open>The body shared by both listeners on an \<open>error\<close> action with a tracked span.\<close>

definition fail_span :: "span \<Rightarrow> js_value \<Rightarrow> tracer \<Rightarrow> tracer" where
  "fail_span sp e t =
     (let t1 = setStatus sp ERROR (Some (cache_error_message e)) t;
          t2 = (if instanceof_Error e then recordException sp e t1 else t1)
      in span_end sp None t2)"

text \<open>The listener subscribed to the query cache.\<close>

definition on_query_event ::
  "QueryCacheEvent \<Rightarrow> query_plugin \<times> tracer \<Rightarrow> query_plugin \<times> tracer" where
  "on_query_event event s =
     (case s of (p, t) \<Rightarrow>
        (case qe_action event of
           None \<Rightarrow> s
         | Some a \<Rightarrow>
             if qe_type event \<noteq> ''updated'' then s
             else
               let h = queryHash (qe_query event);
                   key = queryKey_json (qe_query event);
                   actionType = action_type a
               in
                 if actionType = ''fetch'' \<and> \<not> Map_has h (querySpans p) then
                   (case startSpan (''query '' @ key) None
                           [(''query.hash'', AStr h), (''query.key'', AStr key)] t of
                      (sp, t') \<Rightarrow> (p\<lparr>querySpans := Map_set h sp (querySpans p)\<rparr>, t'))
                 else if actionType = ''success'' then
                   (case Map_get h (querySpans p) of
                      None \<Rightarrow> s
                    | Some sp \<Rightarrow>
                        (p\<lparr>querySpans := Map_delete h (querySpans p)\<rparr>,
                         span_end sp None (setStatus sp OK None t)))
                 else if actionType = ''error'' then
                   (case Map_get h (querySpans p) of
                      None \<Rightarrow> s
                    | Some sp \<Rightarrow>
                        (p\<lparr>querySpans := Map_delete h (querySpans p)\<rparr>,
                         fail_span sp (action_error a) t))
                 else s))"

text \<open>The listener subscribed to the mutation cache.\<close>

definition mutation_label :: "MutationLike \<Rightarrow> string" where
  "mutation_label m =
     (case mutationKey_json m of Some j \<Rightarrow> j | None \<Rightarrow> show_int (mutationId m))"

definition on_mutation_event ::
  "MutationCacheEvent \<Rightarrow> query_plugin \<times> tracer \<Rightarrow> query_plugin \<times> tracer" where
  "on_mutation_event event s =
     (case s of (p, t) \<Rightarrow>
        (case me_action event of
           None \<Rightarrow> s
         | Some a \<Rightarrow>
             (case me_mutation event of
                None \<Rightarrow> s
              | Some m \<Rightarrow>
                  if me_type event \<noteq> ''updated'' then s
                  else
                    let i = mutationId m;
                        actionType = action_type a
                    in
                      if actionType = ''pending'' \<and> \<not> Map_has i (mutationSpans p) then
                        (case startSpan (''mutation '' @ mutation_label m) None
                                [(''mutation.id'', ANum (of_int i)),
                                 (''mutation.key'',
                                  AStr (case mutationKey_json m of Some j \<Rightarrow> j | None \<Rightarrow> ''''))]
                                t of
                           (sp, t') \<Rightarrow>
                             (p\<lparr>mutationSpans := Map_set i sp (mutationSpans p)\<rparr>, t'))
                      else if actionType = ''success'' then
                        (case Map_get i (mutationSpans p) of
                           None \<Rightarrow> s
                         | Some sp \<Rightarrow>
                             (p\<lparr>mutationSpans := Map_delete i (mutationSpans p)\<rparr>,
                              span_end sp None (setStatus sp OK None t)))
                      else if actionType = ''error'' then
                        (case Map_get i (mutationSpans p) of
                           None \<Rightarrow> s
                         | Some sp \<Rightarrow>
                             (p\<lparr>mutationSpans := Map_delete i (mutationSpans p)\<rparr>,
                              fail_span sp (action_error a) t))
                      else s)))"

text \<open>Any interleaving of the two event streams, delivered one event at a time.\<close>

datatype cache_event = QueryEvent QueryCacheEvent | MutationEvent MutationCacheEvent

fun on_cache_event :: "cache_event \<Rightarrow> query_plugin \<times> tracer \<Rightarrow> query_plugin \<times> tracer" where
  "on_cache_event (QueryEvent e) s = on_query_event e s"
| "on_cache_event (MutationEvent e) s = on_mutation_event e s"

definition run_cache_events ::
  "cache_event list \<Rightarrow> query_plugin \<times> tracer \<Rightarrow> query_plugin \<times> tracer" where
  "run_cache_events evs s = fold on_cache_event evs s"

text \<open>
  The tables of the plugin against the log of the tracer: no key twice, no span under
  two keys, the spans in the tables are exactly the spans started and not yet ended,
  and every handle in the log is one the tracer has handed out.
\<close>

definition tables_track_open_spans :: "query_plugin \<times> tracer \<Rightarrow> bool" where
  "tables_track_open_spans s =
     (case s of (p, t) \<Rightarrow>
        distinct (map fst (querySpans p)) \<and>
        distinct (map fst (mutationSpans p)) \<and>
        distinct (Map_values (querySpans p) @ Map_values (mutationSpans p)) \<and>
        set (Map_values (querySpans p) @ Map_values (mutationSpans p)) = set (open_spans (calls t)) \<and>
        list_all (\<lambda>sp. sp < next_span t) (started (calls t) @ ended (calls t)))"
text \<open>A run used to exercise the statements below: one query and one mutation in flight.\<close>

definition example_query_event :: "string \<Rightarrow> js_value \<Rightarrow> QueryCacheEvent" where
  "example_query_event ty err =
     \<lparr>qe_type = ''updated'',
      qe_query = \<lparr>queryKey_json = ''[1]'', queryHash = ''q1''\<rparr>,
      qe_action = Some \<lparr>action_type = ty, action_error = err\<rparr>\<rparr>"

definition example_mutation_event :: "string \<Rightarrow> js_value \<Rightarrow> MutationCacheEvent" where
  "example_mutation_event ty err =
     \<lparr>me_type = ''updated'',
      me_mutation = Some \<lparr>mutationId = 7, mutationKey_json = None\<rparr>,
      me_action = Some \<lparr>action_type = ty, action_error = err\<rparr>\<rparr>"

definition example_pending :: "query_plugin \<times> tracer" where
  "example_pending =
     (\<lparr>querySpans = [(''q1'', 0)], mutationSpans = [(7, 1)]\<rparr>,
      \<lparr>next_span = 2,
       calls = [StartSpan 0 ''query [1]'' None
                  [(''query.hash'', AStr ''q1''), (''query.key'', AStr ''[1]'')],
                StartSpan 1 ''mutation 7'' None
                  [(''mutation.id'', ANum 7), (''mutation.key'', AStr [])]]\<rparr>)"


section \<open>The navigation plugin (createRouterPlugin)\<close>

text \<open>
  A location is used through its \<open>pathname\<close> only; \<open>fromLocation\<close> is \<open>None\<close> when the
  event has no origin location.
\<close>

record NavigationEvent =
  nav_type :: string
  fromLocation :: "string option"
  toLocation :: string
  pathChanged :: bool

record router_plugin =
  activeSpan :: "span option"

definition new_router_plugin :: router_plugin where
  "new_router_plugin = \<lparr>activeSpan = None\<rparr>"

text \<open>The listener subscribed to \<open>onBeforeNavigate\<close>.\<close>

definition onBeforeNavigate ::
  "NavigationEvent \<Rightarrow> router_plugin \<times> tracer \<Rightarrow> router_plugin \<times> tracer" where
  "onBeforeNavigate event s =
     (case s of (p, t) \<Rightarrow>
        let t1 = (case activeSpan p of Some prior \<Rightarrow> span_end prior None t | None \<Rightarrow> t)
        in
          (case startSpan (''navigate '' @ toLocation event) None
                  [(''router.from'',
                    AStr (case fromLocation event of Some f \<Rightarrow> f | None \<Rightarrow> [])),
                   (''router.to'', AStr (toLocation event)),
                   (''router.path_changed'', ABool (pathChanged event))] t1 of
             (sp, t2) \<Rightarrow> (p\<lparr>activeSpan := Some sp\<rparr>, t2)))"

text \<open>The listener subscribed to \<open>onResolved\<close>.\<close>

definition onResolved :: "router_plugin \<times> tracer \<Rightarrow> router_plugin \<times> tracer" where
  "onResolved s =
     (case s of (p, t) \<Rightarrow>
        (case activeSpan p of
           Some sp \<Rightarrow> (p\<lparr>activeSpan := None\<rparr>, span_end sp None (setStatus sp OK None t))
         | None \<Rightarrow> s))"

definition router_teardown :: "router_plugin \<times> tracer \<Rightarrow> router_plugin \<times> tracer" where
  "router_teardown s =
     (case s of (p, t) \<Rightarrow>
        (case activeSpan p of
           Some sp \<Rightarrow> (p\<lparr>activeSpan := None\<rparr>, span_end sp None t)
         | None \<Rightarrow> s))"

text \<open>A navigation in flight, used to exercise the statements below.\<close>

definition example_navigating :: "router_plugin \<times> tracer" where
  "example_navigating =
     (\<lparr>activeSpan = Some 0\<rparr>,
      \<lparr>next_span = 1,
       calls = [StartSpan 0 ''navigate /a'' None
                  [(''router.from'', AStr ''/''), (''router.to'', AStr ''/a''),
                   (''router.path_changed'', ABool True)]]\<rparr>)"

definition example_navigation :: NavigationEvent where
  "example_navigation =
     \<lparr>nav_type = ''onBeforeNavigate'', fromLocation = Some ''/a'', toLocation = ''/b'',
      pathChanged = True\<rparr>"

section \<open>The page-load plugin (createDocumentLoadPlugin)\<close>

text \<open>
  Timestamps and sizes of the performance timeline are numbers of the host language; they
  are modelled as reals. The plugin passes them on and subtracts them.
\<close>

record PerformanceNavigationTiming =
  startTime :: real
  navigation_type :: string
  redirectCount :: real
  domainLookupStart :: real
  domainLookupEnd :: real
  connectStart :: real
  connectEnd :: real
  secureConnectionStart :: real
  requestStart :: real
  responseStart :: real
  responseEnd :: real
  domInteractive :: real
  domContentLoadedEventEnd :: real
  loadEventEnd :: real
  transferSize :: real
  decodedBodySize :: real

text \<open>
  A paint or largest-contentful-paint entry; \<open>entry_element\<close> is the tag name of the
  entry's element and \<open>entry_size\<close> its size, \<open>None\<close> where the entry has none.
\<close>

record PerformanceEntry =
  entry_name :: string
  entry_startTime :: real
  entry_element :: "string option"
  entry_size :: "real option"

text \<open>
  What the plugin reads from the browser: \<open>document.readyState\<close>, \<open>location.href\<close>,
  \<open>performance.getEntriesByType\<close> for \<open>navigation\<close> and \<open>paint\<close>, and whether
  constructing a \<open>PerformanceObserver\<close> and observing an entry type succeeds (it throws
  where the type is unsupported).
\<close>

record browser =
  readyState :: string
  location_href :: string
  navigation_entries :: "PerformanceNavigationTiming list"
  paint_entries :: "PerformanceEntry list"
  observer_constructible :: bool
  observe_supported :: "string \<Rightarrow> bool"

text \<open>
  The state the plugin leaves behind: the variable \<open>observer\<close> (\<open>None\<close> while
  undefined), whether that observer and the one-shot paint observer are observing, whether
  the once-only \<open>load\<close> listener is still registered on the window, and the
  \<open>navigationStart\<close> the observer callbacks have captured.
\<close>

record document_load_plugin =
  observer :: "unit option"
  lcp_observing :: bool
  paint_observing :: bool
  load_listener :: bool
  navigationStart :: real

definition new_document_load_plugin :: document_load_plugin where
  "new_document_load_plugin =
     \<lparr>observer = None, lcp_observing = False, paint_observing = False,
      load_listener = False, navigationStart = 0\<rparr>"

definition navigation_attributes :: "browser \<Rightarrow> PerformanceNavigationTiming \<Rightarrow> attributes" where
  "navigation_attributes b navigation =
     [(''document.url'', AStr (location_href b)),
      (''document.type'', AStr (navigation_type navigation)),
      (''document.redirect_count'', ANum (redirectCount navigation)),
      (''timing.dns_ms'', ANum (domainLookupEnd navigation - domainLookupStart navigation)),
      (''timing.connect_ms'', ANum (connectEnd navigation - connectStart navigation)),
      (''timing.tls_ms'',
       ANum (if secureConnectionStart navigation > 0
             then connectEnd navigation - secureConnectionStart navigation
             else 0)),
      (''timing.ttfb_ms'', ANum (responseStart navigation - requestStart navigation)),
      (''timing.response_ms'', ANum (responseEnd navigation - responseStart navigation)),
      (''timing.dom_interactive_ms'', ANum (domInteractive navigation)),
      (''timing.dom_content_loaded_ms'', ANum (domContentLoadedEventEnd navigation)),
      (''timing.load_ms'', ANum (loadEventEnd navigation)),
      (''transfer.size'', ANum (transferSize navigation)),
      (''transfer.decoded_size'', ANum (decodedBodySize navigation))]"

definition emitNavigationSpan :: "browser \<Rightarrow> tracer \<Rightarrow> tracer" where
  "emitNavigationSpan b t =
     (case navigation_entries b of
        [] \<Rightarrow> t
      | navigation # rest \<Rightarrow>
          (case startSpan ''document.load'' (Some (startTime navigation))
                  (navigation_attributes b navigation) t of
             (sp, t') \<Rightarrow> span_end sp (Some (loadEventEnd navigation)) t'))"

fun emitPaintSpans :: "string \<Rightarrow> PerformanceEntry list \<Rightarrow> real \<Rightarrow> tracer \<Rightarrow> tracer" where
  "emitPaintSpans href [] navStart t = t"
| "emitPaintSpans href (entry # entries) navStart t =
     (if entry_name entry \<noteq> ''first-paint'' \<and> entry_name entry \<noteq> ''first-contentful-paint''
      then emitPaintSpans href entries navStart t
      else
        (case startSpan (entry_name entry) (Some navStart)
                [(''document.url'', AStr href),
                 (''paint.duration_ms'', ANum (entry_startTime entry))] t of
           (sp, t') \<Rightarrow>
             emitPaintSpans href entries navStart (span_end sp (Some (entry_startTime entry)) t')))"

definition emitLcpSpan :: "string \<Rightarrow> PerformanceEntry list \<Rightarrow> real \<Rightarrow> tracer \<Rightarrow> tracer" where
  "emitLcpSpan href entries navStart t =
     (if entries = [] then t
      else
        let lcp = last entries
        in
          (case startSpan ''largest-contentful-paint'' (Some navStart)
                  [(''document.url'', AStr href),
                   (''lcp.duration_ms'', ANum (entry_startTime lcp)),
                   (''lcp.element'',
                    AStr (case entry_element lcp of Some tag \<Rightarrow> tag | None \<Rightarrow> [])),
                   (''lcp.size'', ANum (case entry_size lcp of Some n \<Rightarrow> n | None \<Rightarrow> 0))] t of
             (sp, t') \<Rightarrow> span_end sp (Some (entry_startTime lcp)) t'))"

definition document_load_setup ::
  "browser \<Rightarrow> document_load_plugin \<times> tracer \<Rightarrow> document_load_plugin \<times> tracer" where
  "document_load_setup b s =
     (case s of (p, t) \<Rightarrow>
        let complete = (readyState b = ''complete'');
            t1 = (if complete then emitNavigationSpan b t else t);
            p1 = (if complete then p else p\<lparr>load_listener := True\<rparr>);
            navStart = (case navigation_entries b of [] \<Rightarrow> 0 | n # rest \<Rightarrow> startTime n);
            existingPaintEntries = paint_entries b;
            t2 = (if existingPaintEntries \<noteq> []
                  then emitPaintSpans (location_href b) existingPaintEntries navStart t1
                  else t1);
            p2 = (if existingPaintEntries = [] \<and> observer_constructible b \<and>
                     observe_supported b ''paint''
                  then p1\<lparr>paint_observing := True\<rparr> else p1);
            p3 = (if observer_constructible b
                  then p2\<lparr>observer := Some (),
                          lcp_observing := observe_supported b ''largest-contentful-paint''\<rparr>
                  else p2)
        in (p3\<lparr>navigationStart := navStart\<rparr>, t2))"

definition document_load_teardown :: "document_load_plugin \<Rightarrow> document_load_plugin" where
  "document_load_teardown p = p\<lparr>observer := None, lcp_observing := False\<rparr>"

text \<open>
  What the browser can deliver after setup: the window's \<open>load\<close> event (with the
  browser as it is then), a batch of paint entries, a batch of largest-contentful-paint
  entries.
\<close>

datatype page_event =
    WindowLoad browser
  | PaintObserved browser "PerformanceEntry list"
  | LcpObserved browser "PerformanceEntry list"

fun on_page_event ::
  "page_event \<Rightarrow> document_load_plugin \<times> tracer \<Rightarrow> document_load_plugin \<times> tracer" where
  "on_page_event (WindowLoad b) (p, t) =
     (if load_listener p then (p\<lparr>load_listener := False\<rparr>, emitNavigationSpan b t) else (p, t))"
| "on_page_event (PaintObserved b entries) (p, t) =
     (if paint_observing p
      then (p\<lparr>paint_observing := False\<rparr>,
            emitPaintSpans (location_href b) entries (navigationStart p) t)
      else (p, t))"
| "on_page_event (LcpObserved b entries) (p, t) =
     (if lcp_observing p
      then (p, emitLcpSpan (location_href b) entries (navigationStart p) t)
      else (p, t))"

fun is_WindowLoad :: "page_event \<Rightarrow> bool" where
  "is_WindowLoad (WindowLoad b) = True"
| "is_WindowLoad ev = False"

definition run_page_events ::
  "page_event list \<Rightarrow> document_load_plugin \<times> tracer \<Rightarrow> document_load_plugin \<times> tracer" where
  "run_page_events evs s = fold on_page_event evs s"

text \<open>The \<open>document.load\<close> spans a log has started, by start time.\<close>

fun document_load_start :: "span_call \<Rightarrow> (span \<times> real option) list" where
  "document_load_start (StartSpan sp name st attrs) =
     (if name = ''document.load'' then [(sp, st)] else [])"
| "document_load_start c = []"

definition document_load_spans :: "span_call list \<Rightarrow> (span \<times> real option) list" where
  "document_load_spans cs = concat (map document_load_start cs)"

text \<open>A page used to exercise the statements below.\<close>

definition example_timing :: PerformanceNavigationTiming where
  "example_timing =
     \<lparr>startTime = 0, navigation_type = ''navigate'', redirectCount = 0,
      domainLookupStart = 1, domainLookupEnd = 3, connectStart = 3, connectEnd = 8,
      secureConnectionStart = 4, requestStart = 8, responseStart = 20, responseEnd = 25,
      domInteractive = 60, domContentLoadedEventEnd = 70, loadEventEnd = 90,
      transferSize = 1200, decodedBodySize = 4000\<rparr>"

definition example_browser :: "string \<Rightarrow> browser" where
  "example_browser state =
     \<lparr>readyState = state, location_href = ''https://app.test/'',
      navigation_entries = [example_timing], paint_entries = [],
      observer_constructible = True, observe_supported = (\<lambda>ty. True)\<rparr>"

section \<open>The HTTP plugin (createFetchPlugin)\<close>

subsection \<open>Patterns, requests and responses\<close>

text \<open>
  A URL pattern is a \<open>RegExp\<close> object supplied by the caller. The plugin uses it
  through \<open>test\<close> only, and \<open>test\<close> both reads and writes the object: under the
  \<open>g\<close> or the \<open>y\<close> flag it starts at \<open>lastIndex\<close>, stores the end of the match there
  when it succeeds and stores 0 when it fails. What the pattern matches is given by
  \<open>match_at\<close>: the end of the match that begins at a given index of the string, if
  there is one.
\<close>

record RegExp =
  match_at :: "string \<Rightarrow> nat \<Rightarrow> nat option"
  global :: bool
  sticky :: bool
  lastIndex :: nat

text \<open>
  The search of \<open>test\<close>: the first index from \<open>i\<close> on, up to the end of the string, at
  which the pattern matches. The last argument is the rest of the string after \<open>i\<close>.
\<close>

fun RegExp_search :: "(string \<Rightarrow> nat \<Rightarrow> nat option) \<Rightarrow> string \<Rightarrow> nat \<Rightarrow> string \<Rightarrow> nat option" where
  "RegExp_search m s i [] = m s i"
| "RegExp_search m s i (c # rest) =
     (case m s i of Some e \<Rightarrow> Some e | None \<Rightarrow> RegExp_search m s (Suc i) rest)"

definition RegExp_test :: "RegExp \<Rightarrow> string \<Rightarrow> bool \<times> RegExp" where
  "RegExp_test r s =
     (let stateful = (global r \<or> sticky r);
          start = (if stateful then lastIndex r else 0);
          found = (if start > length s then None
                   else if sticky r then match_at r s start
                   else RegExp_search (match_at r) s start (drop start s))
      in
        (case found of
           None \<Rightarrow> (False, if stateful then r\<lparr>lastIndex := 0\<rparr> else r)
         | Some e \<Rightarrow> (True, if stateful then r\<lparr>lastIndex := e\<rparr> else r)))"

text \<open>
  The pattern objects live in a store and the configuration holds references to them,
  so that one object may occur in both lists, or twice in one. \<open>patterns.some(...)\<close>
  tests the patterns in order and stops at the first that answers true.
\<close>

type_synonym regexp_ref = nat

type_synonym regexp_store = "regexp_ref \<Rightarrow> RegExp"

fun matchesAny :: "string \<Rightarrow> regexp_ref list \<Rightarrow> regexp_store \<Rightarrow> bool \<times> regexp_store" where
  "matchesAny url [] store = (False, store)"
| "matchesAny url (p # patterns) store =
     (case RegExp_test (store p) url of
        (answer, r) \<Rightarrow>
          if answer then (True, store(p := r))
          else matchesAny url patterns (store(p := r)))"

record FetchPluginConfig =
  ignoreUrls_option :: "regexp_ref list option"
  propagateToUrls_option :: "regexp_ref list option"

text \<open>The destructuring defaults: \<open>const { ignoreUrls = [], propagateToUrls = [] } = config\<close>.\<close>

definition ignoreUrls :: "FetchPluginConfig \<Rightarrow> regexp_ref list" where
  "ignoreUrls config = (case ignoreUrls_option config of None \<Rightarrow> [] | Some ps \<Rightarrow> ps)"

definition propagateToUrls :: "FetchPluginConfig \<Rightarrow> regexp_ref list" where
  "propagateToUrls config = (case propagateToUrls_option config of None \<Rightarrow> [] | Some ps \<Rightarrow> ps)"

text \<open>
  The first argument of \<open>fetch\<close>: a string, a \<open>URL\<close> (given by its \<open>href\<close>) or a
  \<open>Request\<close> (given by its \<open>url\<close> and \<open>method\<close>).
\<close>

datatype request_info =
    InputString string
  | InputURL string
  | InputRequest string string

text \<open>
  A \<open>Headers\<close> object is a list of name and value with lower-case names, no name twice:
  \<open>set\<close> replaces or appends, \<open>append\<close> joins the values of a name that is present.
  Names and values are taken to be valid (the constructor throws on others).
\<close>

type_synonym headers = "(string \<times> string) list"

definition headers_set :: "string \<Rightarrow> string \<Rightarrow> headers \<Rightarrow> headers" where
  "headers_set name v hs = AList.update (toLowerCase name) v hs"

definition headers_append :: "string \<Rightarrow> string \<Rightarrow> headers \<Rightarrow> headers" where
  "headers_append name v hs =
     (case map_of hs (toLowerCase name) of
        None \<Rightarrow> hs @ [(toLowerCase name, v)]
      | Some old \<Rightarrow> AList.update (toLowerCase name) (old @ '', '' @ v) hs)"

definition new_Headers :: "headers option \<Rightarrow> headers" where
  "new_Headers init =
     (case init of
        None \<Rightarrow> []
      | Some pairs \<Rightarrow> fold (\<lambda>(name, v). headers_append name v) pairs [])"

record RequestInit =
  init_method :: "string option"
  init_headers :: "headers option"
  init_body :: "string option"

definition empty_RequestInit :: RequestInit where
  "empty_RequestInit = \<lparr>init_method = None, init_headers = None, init_body = None\<rparr>"

text \<open>
  A response, as far as the plugin reads it: \<open>status\<close>, \<open>ok\<close>, and the number
  \<open>Number(response.headers.get("content-length"))\<close>, \<open>None\<close> when that is not a number.
\<close>

record response =
  status :: int
  ok :: bool
  content_length :: "real option"

text \<open>The platform sets \<open>ok\<close> on every response it creates: the status is in 200 to 299.\<close>

definition platform_response :: "response \<Rightarrow> bool" where
  "platform_response r = (ok r = (200 \<le> status r \<and> status r \<le> 299))"

subsection \<open>The host\<close>

text \<open>
  What the plugin takes from its surroundings: \<open>location.origin\<close>; the \<open>href\<close> of
  \<open>new URL(input, base)\<close>, or the error the constructor throws; and the entries
  \<open>propagation.inject(context.active(), carrier)\<close> writes into an empty carrier.
\<close>

record host =
  location_origin :: string
  URL_href :: "string \<Rightarrow> string \<Rightarrow> js_value + string"
  propagation_inject :: "(string \<times> string) list"

text \<open>
  A function reference: a function the plugin found in place (\<open>Host n\<close>), or one of the
  three functions the plugin installs.
\<close>

datatype fn_ref = Host nat | PatchedFetch | PatchedXhrOpen | PatchedXhrSend

record globals =
  global_fetch :: fn_ref
  XMLHttpRequest_open :: fn_ref
  XMLHttpRequest_send :: fn_ref

record fetch_plugin =
  originalFetch :: "fn_ref option"
  originalXhrOpen :: "fn_ref option"
  originalXhrSend :: "fn_ref option"

definition new_fetch_plugin :: fetch_plugin where
  "new_fetch_plugin = \<lparr>originalFetch = None, originalXhrOpen = None, originalXhrSend = None\<rparr>"

text \<open>
  The calls that reach the functions found in place are logged next to the calls on the
  tracer; the third part of the world is the store of the pattern objects.
\<close>

datatype host_call =
    FetchCall fn_ref request_info "RequestInit option"
  | XhrOpenCall fn_ref string string
  | XhrSendCall fn_ref "string option"

record world =
  trace :: tracer
  outgoing :: "host_call list"
  regexps :: regexp_store

text \<open>Calling a variable that holds \<open>undefined\<close> throws a \<open>TypeError\<close>.\<close>

definition not_a_function :: "string \<Rightarrow> js_value" where
  "not_a_function name = JSError (name @ '' is not a function'')"

subsection \<open>Helpers of the plugin\<close>

definition resolveUrl :: "host \<Rightarrow> request_info \<Rightarrow> js_value + string" where
  "resolveUrl h input =
     (case input of
        InputString s \<Rightarrow> URL_href h s (location_origin h)
      | InputURL href \<Rightarrow> Inr href
      | InputRequest url m \<Rightarrow> URL_href h url (location_origin h))"

definition resolveMethod :: "request_info \<Rightarrow> RequestInit option \<Rightarrow> string" where
  "resolveMethod input init =
     (case (case init of None \<Rightarrow> None | Some i \<Rightarrow> init_method i) of
        Some m \<Rightarrow>
          if m \<noteq> [] then toUpperCase m
          else (case input of InputRequest url rm \<Rightarrow> toUpperCase rm | other \<Rightarrow> ''GET'')
      | None \<Rightarrow> (case input of InputRequest url rm \<Rightarrow> toUpperCase rm | other \<Rightarrow> ''GET''))"

definition injectTraceHeaders :: "host \<Rightarrow> headers \<Rightarrow> headers" where
  "injectTraceHeaders h hs = fold (\<lambda>(key, v). headers_set key v) (propagation_inject h) hs"

subsection \<open>setup and teardown\<close>

definition patchFetch :: "fetch_plugin \<times> globals \<Rightarrow> fetch_plugin \<times> globals" where
  "patchFetch s =
     (case s of (p, g) \<Rightarrow>
        (p\<lparr>originalFetch := Some (global_fetch g)\<rparr>, g\<lparr>global_fetch := PatchedFetch\<rparr>))"

definition patchXhr :: "fetch_plugin \<times> globals \<Rightarrow> fetch_plugin \<times> globals" where
  "patchXhr s =
     (case s of (p, g) \<Rightarrow>
        (p\<lparr>originalXhrOpen := Some (XMLHttpRequest_open g),
           originalXhrSend := Some (XMLHttpRequest_send g)\<rparr>,
         g\<lparr>XMLHttpRequest_open := PatchedXhrOpen, XMLHttpRequest_send := PatchedXhrSend\<rparr>))"

definition fetch_setup :: "fetch_plugin \<times> globals \<Rightarrow> fetch_plugin \<times> globals" where
  "fetch_setup s = patchXhr (patchFetch s)"

definition fetch_teardown :: "fetch_plugin \<times> globals \<Rightarrow> fetch_plugin \<times> globals" where
  "fetch_teardown s =
     (case s of (p, g) \<Rightarrow>
        let (p1, g1) = (case originalFetch p of
                          Some f \<Rightarrow> (p\<lparr>originalFetch := None\<rparr>, g\<lparr>global_fetch := f\<rparr>)
                        | None \<Rightarrow> (p, g));
            (p2, g2) = (case originalXhrOpen p1 of
                          Some f \<Rightarrow> (p1\<lparr>originalXhrOpen := None\<rparr>, g1\<lparr>XMLHttpRequest_open := f\<rparr>)
                        | None \<Rightarrow> (p1, g1))
        in (case originalXhrSend p2 of
              Some f \<Rightarrow> (p2\<lparr>originalXhrSend := None\<rparr>, g2\<lparr>XMLHttpRequest_send := f\<rparr>)
            | None \<Rightarrow> (p2, g2)))"

subsection \<open>The patched fetch\<close>

text \<open>
  \<open>outcome\<close> is what the call of the original function comes to: the response it
  resolves to, or the value it throws or rejects with.
\<close>

definition call_originalFetch ::
  "fetch_plugin \<Rightarrow> request_info \<Rightarrow> RequestInit option \<Rightarrow> js_value + response \<Rightarrow> world
   \<Rightarrow> (js_value + response) \<times> world" where
  "call_originalFetch p input init outcome w =
     (case originalFetch p of
        None \<Rightarrow> (Inl (not_a_function ''originalFetch''), w)
      | Some f \<Rightarrow> (outcome, w\<lparr>outgoing := outgoing w @ [FetchCall f input init]\<rparr>))"

definition fetch_failure_message :: "js_value \<Rightarrow> string" where
  "fetch_failure_message e = (if instanceof_Error e then message e else ''Fetch failed'')"

definition patched_fetch ::
  "host \<Rightarrow> FetchPluginConfig \<Rightarrow> fetch_plugin \<Rightarrow> request_info \<Rightarrow> RequestInit option
   \<Rightarrow> js_value + response \<Rightarrow> world \<Rightarrow> (js_value + response) \<times> world" where
  "patched_fetch h config p input init outcome w =
     (case resolveUrl h input of
        Inl e \<Rightarrow> (Inl e, w)
      | Inr url \<Rightarrow>
          (case matchesAny url (ignoreUrls config) (regexps w) of
             (ignored, store1) \<Rightarrow>
               if ignored
               then call_originalFetch p input init outcome (w\<lparr>regexps := store1\<rparr>)
               else
                 let method = resolveMethod input init
                 in
                   (case startSpan (''HTTP '' @ method) None
                           [(''http.method'', AStr method), (''http.url'', AStr url)]
                           (trace w) of
                      (sp, t1) \<Rightarrow>
                        let hs = new_Headers
                                   (case init of None \<Rightarrow> None | Some i \<Rightarrow> init_headers i)
                        in
                          (case matchesAny url (propagateToUrls config) store1 of
                             (propagate, store2) \<Rightarrow>
                               let hs' = (if propagate then injectTraceHeaders h hs else hs);
                                   init' = (case init of
                                              None \<Rightarrow> empty_RequestInit
                                            | Some i \<Rightarrow> i)\<lparr>init_headers := Some hs'\<rparr>
                               in
                                 (case call_originalFetch p input (Some init') outcome
                                         (w\<lparr>trace := t1, regexps := store2\<rparr>) of
                                    (Inr resp, w2) \<Rightarrow>
                                      let t2 = setAttributes sp
                                                 [(''http.status_code'',
                                                   ANum (of_int (status resp))),
                                                  (''http.response.content_length'',
                                                   ANum (case content_length resp of
                                                           None \<Rightarrow> 0 | Some n \<Rightarrow> n))]
                                                 (trace w2);
                                          t3 = (if ok resp then setStatus sp OK None t2
                                                else setStatus sp ERROR
                                                       (Some (''HTTP '' @
                                                              show_int (status resp))) t2)
                                      in (Inr resp, w2\<lparr>trace := span_end sp None t3\<rparr>)
                                  | (Inl error, w2) \<Rightarrow>
                                      let t2 = setStatus sp ERROR
                                                 (Some (fetch_failure_message error)) (trace w2);
                                          t3 = (if instanceof_Error error
                                                then recordException sp error t2 else t2)
                                      in (Inl error, w2\<lparr>trace := span_end sp None t3\<rparr>))))))"

subsection \<open>The patched XMLHttpRequest\<close>

text \<open>
  A listener the plugin adds to a request; each holds the span it was created for.
\<close>

datatype listener = LoadendListener span | ErrorListener span

text \<open>
  A request object: the two fields the plugin adds, its \<open>status\<close>, the calls of
  \<open>setRequestHeader\<close> and of \<open>addEventListener\<close> made on it, in order.
\<close>

record xhr =
  otel_method :: "string option"
  otel_url :: "string option"
  xhr_status :: int
  requestHeaders :: "(string \<times> string) list"
  listeners :: "(string \<times> listener) list"

definition new_xhr :: xhr where
  "new_xhr = \<lparr>otel_method = None, otel_url = None, xhr_status = 0, requestHeaders = [],
              listeners = []\<rparr>"

definition setRequestHeader :: "string \<Rightarrow> string \<Rightarrow> xhr \<Rightarrow> xhr" where
  "setRequestHeader key v this = this\<lparr>requestHeaders := requestHeaders this @ [(key, v)]\<rparr>"

definition addEventListener :: "string \<Rightarrow> listener \<Rightarrow> xhr \<Rightarrow> xhr" where
  "addEventListener name l this = this\<lparr>listeners := listeners this @ [(name, l)]\<rparr>"

text \<open>\<open>outcome\<close> is what the original \<open>open\<close> comes to: it returns, or throws.\<close>

definition patched_open ::
  "host \<Rightarrow> fetch_plugin \<Rightarrow> string \<Rightarrow> string \<Rightarrow> js_value + unit \<Rightarrow> xhr \<times> world
   \<Rightarrow> (js_value + unit) \<times> xhr \<times> world" where
  "patched_open h p method url outcome s =
     (case s of (this, w) \<Rightarrow>
        let this1 = this\<lparr>otel_method := Some (toUpperCase method)\<rparr>
        in
          (case URL_href h url (location_origin h) of
             Inl e \<Rightarrow> (Inl e, this1, w)
           | Inr href \<Rightarrow>
               let this2 = this1\<lparr>otel_url := Some href\<rparr>
               in
                 (case originalXhrOpen p of
                    None \<Rightarrow> (Inl (not_a_function ''originalXhrOpen.apply''), this2, w)
                  | Some f \<Rightarrow>
                      (outcome, this2,
                       w\<lparr>outgoing := outgoing w @ [XhrOpenCall f method url]\<rparr>))))"

definition call_originalXhrSend ::
  "fetch_plugin \<Rightarrow> string option \<Rightarrow> js_value + unit \<Rightarrow> world \<Rightarrow> (js_value + unit) \<times> world" where
  "call_originalXhrSend p body outcome w =
     (case originalXhrSend p of
        None \<Rightarrow> (Inl (not_a_function ''originalXhrSend.call''), w)
      | Some f \<Rightarrow> (outcome, w\<lparr>outgoing := outgoing w @ [XhrSendCall f body]\<rparr>))"

text \<open>\<open>!url\<close> on a value that is a string or undefined.\<close>

fun falsy :: "string option \<Rightarrow> bool" where
  "falsy None = True"
| "falsy (Some s) = (s = [])"

definition send_instrumented ::
  "host \<Rightarrow> FetchPluginConfig \<Rightarrow> fetch_plugin \<Rightarrow> string \<Rightarrow> string \<Rightarrow> string option
   \<Rightarrow> js_value + unit \<Rightarrow> xhr \<times> world \<Rightarrow> (js_value + unit) \<times> xhr \<times> world" where
  "send_instrumented h config p url method body outcome s =
     (case s of (this, w) \<Rightarrow>
        (case startSpan (''HTTP '' @ method) None
                [(''http.method'', AStr method), (''http.url'', AStr url)] (trace w) of
           (sp, t1) \<Rightarrow>
             (case matchesAny url (propagateToUrls config) (regexps w) of
                (propagate, store2) \<Rightarrow>
                  let this1 = (if propagate
                               then fold (\<lambda>(key, v). setRequestHeader key v)
                                      (propagation_inject h) this
                               else this);
                      this2 = addEventListener ''loadend'' (LoadendListener sp) this1;
                      this3 = addEventListener ''error'' (ErrorListener sp) this2
                  in
                    (case call_originalXhrSend p body outcome
                            (w\<lparr>trace := t1, regexps := store2\<rparr>) of
                       (r, w') \<Rightarrow> (r, this3, w')))))"

definition patched_send ::
  "host \<Rightarrow> FetchPluginConfig \<Rightarrow> fetch_plugin \<Rightarrow> string option \<Rightarrow> js_value + unit
   \<Rightarrow> xhr \<times> world \<Rightarrow> (js_value + unit) \<times> xhr \<times> world" where
  "patched_send h config p body outcome s =
     (case s of (this, w) \<Rightarrow>
        let passthrough =
              (\<lambda>w0. case call_originalXhrSend p body outcome w0 of (r, w') \<Rightarrow> (r, this, w'))
        in
          if falsy (otel_url this) then passthrough w
          else if falsy (otel_method this) then passthrough w
          else
            (case (otel_url this, otel_method this) of
               (Some url, Some method) \<Rightarrow>
                 (case matchesAny url (ignoreUrls config) (regexps w) of
                    (ignored, store1) \<Rightarrow>
                      if ignored then passthrough (w\<lparr>regexps := store1\<rparr>)
                      else send_instrumented h config p url method body outcome
                             (this, w\<lparr>regexps := store1\<rparr>))
             | other \<Rightarrow> passthrough w))"

text \<open>The listeners, and the delivery of an event to the listeners registered for it.\<close>

fun run_listener :: "xhr \<Rightarrow> listener \<Rightarrow> tracer \<Rightarrow> tracer" where
  "run_listener this (LoadendListener sp) t =
     (let t1 = setAttribute sp ''http.status_code'' (ANum (of_int (xhr_status this))) t;
          t2 = (if xhr_status this \<ge> 200 \<and> xhr_status this < 400
                then setStatus sp OK None t1
                else setStatus sp ERROR (Some (''HTTP '' @ show_int (xhr_status this))) t1)
      in span_end sp None t2)"
| "run_listener this (ErrorListener sp) t =
     span_end sp None (setStatus sp ERROR (Some ''XHR request failed'') t)"

definition dispatchEvent :: "string \<Rightarrow> xhr \<Rightarrow> tracer \<Rightarrow> tracer" where
  "dispatchEvent name this t =
     fold (\<lambda>(n, l) t'. if n = name then run_listener this l t' else t') (listeners this) t"

subsection \<open>A host, a configuration and a plugin after setup, used to exercise the statements\<close>

text \<open>The example host is only given absolute URLs, which resolve to themselves.\<close>

definition example_host :: host where
  "example_host =
     \<lparr>location_origin = ''https://app.test'',
      URL_href = (\<lambda>input base. Inr input),
      propagation_inject = [(''traceparent'', ''00-0af7-b7ad-01'')]\<rparr>"

text \<open>
  Two kinds of pattern: one that matches a given text as the whole string (as
  \<open>/^text$/\<close> does for a text without special characters), with no flag; and one that
  matches a given text anywhere (as \<open>/text/\<close> or \<open>/text/g\<close> does).
\<close>

definition whole_string :: "string \<Rightarrow> RegExp" where
  "whole_string text =
     \<lparr>match_at = (\<lambda>s i. if i = 0 \<and> s = text then Some (length s) else None),
      global = False, sticky = False, lastIndex = 0\<rparr>"

definition literal :: "string \<Rightarrow> bool \<Rightarrow> RegExp" where
  "literal text g =
     \<lparr>match_at = (\<lambda>s i. if take (length text) (drop i s) = text
                          then Some (i + length text) else None),
      global = g, sticky = False, lastIndex = 0\<rparr>"

text \<open>
  The example configuration ignores the collector's URL and propagates to one API URL;
  its patterns carry no flag.
\<close>

definition example_config :: FetchPluginConfig where
  "example_config = \<lparr>ignoreUrls_option = Some [0], propagateToUrls_option = Some [1]\<rparr>"

definition example_regexps :: regexp_store where
  "example_regexps =
     (\<lambda>r. if r = 0 then whole_string ''https://collector.test/v1/traces''
          else whole_string ''https://api.test/users'')"

definition new_world :: world where
  "new_world = \<lparr>trace = new_tracer, outgoing = [], regexps = example_regexps\<rparr>"

text \<open>
  Two configurations whose single pattern is \<open>/\/t/g\<close>: one ignores with it, the other
  propagates with it. The pattern matches the URL \<open>https://c.test/t\<close>.
\<close>

definition global_ignore_config :: FetchPluginConfig where
  "global_ignore_config = \<lparr>ignoreUrls_option = Some [0], propagateToUrls_option = None\<rparr>"

definition global_propagate_config :: FetchPluginConfig where
  "global_propagate_config = \<lparr>ignoreUrls_option = None, propagateToUrls_option = Some [0]\<rparr>"

definition global_world :: world where
  "global_world =
     \<lparr>trace = new_tracer, outgoing = [], regexps = (\<lambda>r. literal ''/t'' True)\<rparr>"

definition example_globals :: globals where
  "example_globals =
     \<lparr>global_fetch = Host 0, XMLHttpRequest_open = Host 1, XMLHttpRequest_send = Host 2\<rparr>"

definition example_plugin :: fetch_plugin where
  "example_plugin =
     \<lparr>originalFetch = Some (Host 0), originalXhrOpen = Some (Host 1),
      originalXhrSend = Some (Host 2)\<rparr>"

definition example_opened :: "string \<Rightarrow> xhr" where
  "example_opened url = new_xhr\<lparr>otel_method := Some ''GET'', otel_url := Some url\<rparr>"

section \<open>Properties\<close>


subsection \<open>Data-fetch cache\<close>

lemma started_append: "started (cs @ ds) = started cs @ started ds"
  by (simp add: started_def)

lemma ended_append: "ended (cs @ ds) = ended cs @ ended ds"
  by (simp add: ended_def)

lemma open_spans_subset: "set (open_spans cs) \<subseteq> set (started cs)"
  by (auto simp: open_spans_def)

lemma open_spans_start:
  "sp \<notin> set (ended cs) \<Longrightarrow>
   set (open_spans (cs @ [StartSpan sp n st attrs])) = insert sp (set (open_spans cs))"
  by (auto simp: open_spans_def started_def ended_def)

lemma open_spans_finish:
  "started rs = [] \<Longrightarrow> set (ended rs) = {sp} \<Longrightarrow>
   set (open_spans (cs @ rs)) = set (open_spans cs) - {sp}"
  by (auto simp: open_spans_def started_append ended_append)

lemma fail_span_calls:
  "calls (fail_span sp e t) =
     calls t @ [SetStatus sp ERROR (Some (cache_error_message e))] @
       (if instanceof_Error e then [RecordException sp e] else []) @ [End sp None]"
  by (simp add: fail_span_def Let_def setStatus_def recordException_def span_end_def span_call_def)

lemma fail_span_next: "next_span (fail_span sp e t) = next_span t"
  by (simp add: fail_span_def Let_def setStatus_def recordException_def span_end_def span_call_def)

lemma ok_span_calls:
  "calls (span_end sp None (setStatus sp OK None t)) = calls t @ [SetStatus sp OK None, End sp None]"
  by (simp add: setStatus_def span_end_def span_call_def)

lemma ok_span_next: "next_span (span_end sp None (setStatus sp OK None t)) = next_span t"
  by (simp add: setStatus_def span_end_def span_call_def)

lemma update_absent: "map_of m k = None \<Longrightarrow> AList.update k v m = m @ [(k, v)]"
  by (induction m) (auto split: if_splits)

lemma values_delete:
  "distinct (map snd m) \<Longrightarrow> map_of m k = Some v \<Longrightarrow> distinct (map fst m) \<Longrightarrow>
   set (map snd (AList.delete k m)) = set (map snd m) - {v}"
proof (induction m)
  case Nil
  then show ?case by simp
next
  case (Cons a m)
  obtain k' v' where a: "a = (k', v')" by (cases a)
  show ?case
  proof (cases "k' = k")
    case True
    with Cons.prems a have v: "v' = v" and nk: "k \<notin> fst ` set m" and nv: "v \<notin> snd ` set m"
      by auto
    from nk have "AList.delete k m = m"
      by (induction m) auto
    with True a v nv show ?thesis by auto
  next
    case False
    with Cons.prems a have "map_of m k = Some v" by simp
    moreover from this have "v \<in> snd ` set m"
      by (metis map_of_SomeD image_eqI snd_conv)
    ultimately show ?thesis
      using Cons.IH Cons.prems a False by auto
  qed
qed

lemma distinct_values_delete: "distinct (map snd m) \<Longrightarrow> distinct (map snd (AList.delete k m))"
  by (induction m) (auto simp: AList.delete_eq)

lemma values_delete_subset: "set (map snd (AList.delete k m)) \<subseteq> set (map snd m)"
  by (auto simp: AList.delete_eq)


lemma value_in_table: "map_of m k = Some v \<Longrightarrow> v \<in> set (map snd m)"
  by (metis map_of_SomeD image_eqI snd_conv set_map)

lemma tracks_start_query:
  assumes "tables_track_open_spans (p, t)" and "map_of (querySpans p) h = None"
  shows "tables_track_open_spans (p\<lparr>querySpans := AList.update h (next_span t) (querySpans p)\<rparr>,
                 t\<lparr>next_span := Suc (next_span t),
                   calls := calls t @ [StartSpan (next_span t) n st attrs]\<rparr>)"
proof -
  let ?new = "next_span t"
  from assms(1) have fresh: "?new \<notin> set (started (calls t))" "?new \<notin> set (ended (calls t))"
    by (auto simp: tables_track_open_spans_def list_all_iff)
  then have notopen: "?new \<notin> set (open_spans (calls t))"
    using open_spans_subset by blast
  have upd: "AList.update h ?new (querySpans p) = querySpans p @ [(h, ?new)]"
    using assms(2) by (rule update_absent)
  have hk: "h \<notin> set (map fst (querySpans p))"
    using assms(2) by (simp add: map_of_eq_None_iff)
  have lt: "list_all (\<lambda>sp. sp < Suc ?new)
              (started (calls t @ [StartSpan ?new n st attrs]) @
               ended (calls t @ [StartSpan ?new n st attrs]))"
  proof -
    have "list_all (\<lambda>sp. sp < ?new) (started (calls t) @ ended (calls t))"
      using assms(1) by (simp add: tables_track_open_spans_def)
    then have "list_all (\<lambda>sp. sp < Suc ?new) (started (calls t) @ ended (calls t))"
      by (simp add: list_all_iff less_Suc_eq)
    moreover have "started [StartSpan ?new n st attrs] = [?new]" "ended [StartSpan ?new n st attrs] = []"
      by (simp_all add: started_def ended_def)
    ultimately show ?thesis
      by (simp add: started_append ended_append)
  qed
  show ?thesis
    using assms(1) fresh(2) notopen hk lt
    by (auto simp: tables_track_open_spans_def upd Map_values_def open_spans_start)
qed

lemma tracks_start_mutation:
  assumes "tables_track_open_spans (p, t)" and "map_of (mutationSpans p) h = None"
  shows "tables_track_open_spans (p\<lparr>mutationSpans := AList.update h (next_span t) (mutationSpans p)\<rparr>,
                 t\<lparr>next_span := Suc (next_span t),
                   calls := calls t @ [StartSpan (next_span t) n st attrs]\<rparr>)"
proof -
  let ?new = "next_span t"
  from assms(1) have fresh: "?new \<notin> set (started (calls t))" "?new \<notin> set (ended (calls t))"
    by (auto simp: tables_track_open_spans_def list_all_iff)
  then have notopen: "?new \<notin> set (open_spans (calls t))"
    using open_spans_subset by blast
  have upd: "AList.update h ?new (mutationSpans p) = mutationSpans p @ [(h, ?new)]"
    using assms(2) by (rule update_absent)
  have hk: "h \<notin> set (map fst (mutationSpans p))"
    using assms(2) by (simp add: map_of_eq_None_iff)
  have lt: "list_all (\<lambda>sp. sp < Suc ?new)
              (started (calls t @ [StartSpan ?new n st attrs]) @
               ended (calls t @ [StartSpan ?new n st attrs]))"
  proof -
    have "list_all (\<lambda>sp. sp < ?new) (started (calls t) @ ended (calls t))"
      using assms(1) by (simp add: tables_track_open_spans_def)
    then have "list_all (\<lambda>sp. sp < Suc ?new) (started (calls t) @ ended (calls t))"
      by (simp add: list_all_iff less_Suc_eq)
    moreover have "started [StartSpan ?new n st attrs] = [?new]" "ended [StartSpan ?new n st attrs] = []"
      by (simp_all add: started_def ended_def)
    ultimately show ?thesis
      by (simp add: started_append ended_append)
  qed
  show ?thesis
    using assms(1) fresh(2) notopen hk lt
    by (auto simp: tables_track_open_spans_def upd Map_values_def open_spans_start)
qed

lemma tracks_finish_query:
  assumes "tables_track_open_spans (p, t)" and "map_of (querySpans p) h = Some sp"
    and "calls t' = calls t @ rs" and "next_span t' = next_span t"
    and "started rs = []" and "set (ended rs) = {sp}"
  shows "tables_track_open_spans (p\<lparr>querySpans := AList.delete h (querySpans p)\<rparr>, t')"
proof -
  from assms(1) have d: "distinct (map snd (querySpans p))" "distinct (map fst (querySpans p))"
    by (auto simp: tables_track_open_spans_def Map_values_def)
  have vs: "set (map snd (AList.delete h (querySpans p))) = set (map snd (querySpans p)) - {sp}"
    by (rule values_delete[OF d(1) assms(2) d(2)])
  have spin: "sp \<in> set (map snd (querySpans p))"
    using assms(2) by (rule value_in_table)
  then have spm: "sp \<notin> set (map snd (mutationSpans p))"
    using assms(1) by (auto simp: tables_track_open_spans_def Map_values_def)
  have spopen: "sp \<in> set (open_spans (calls t))"
    using assms(1) spin by (auto simp: tables_track_open_spans_def Map_values_def)
  then have splt: "sp < next_span t"
    using assms(1) open_spans_subset by (fastforce simp: tables_track_open_spans_def list_all_iff)
  have op: "set (open_spans (calls t')) = set (open_spans (calls t)) - {sp}"
    using assms(3,5,6) by (simp add: open_spans_finish)
  have "distinct (map fst (AList.delete h (querySpans p)))"
    using d by (simp add: distinct_delete)
  moreover have "distinct (map snd (AList.delete h (querySpans p)) @ map snd (mutationSpans p))"
    using assms(1) d distinct_values_delete[of "querySpans p" h] values_delete_subset[of h "querySpans p"]
    by (auto simp: tables_track_open_spans_def Map_values_def)
  moreover have "set (map snd (AList.delete h (querySpans p)) @ map snd (mutationSpans p))
                 = set (open_spans (calls t'))"
  proof -
    have "set (map snd (querySpans p) @ map snd (mutationSpans p)) = set (open_spans (calls t))"
      using assms(1) by (simp add: tables_track_open_spans_def Map_values_def)
    then have "set (open_spans (calls t)) - {sp}
               = (set (map snd (querySpans p)) - {sp}) \<union> set (map snd (mutationSpans p))"
      using spm by (simp only: set_append) blast
    then show ?thesis
      by (simp only: set_append vs op)
  qed
  moreover have "list_all (\<lambda>s. s < next_span t') (started (calls t') @ ended (calls t'))"
    using assms(1,3,4,5,6) splt by (auto simp: tables_track_open_spans_def list_all_iff started_append ended_append)
  ultimately show ?thesis
    using assms(1) by (simp add: tables_track_open_spans_def Map_values_def)
qed

lemma tracks_finish_mutation:
  assumes "tables_track_open_spans (p, t)" and "map_of (mutationSpans p) h = Some sp"
    and "calls t' = calls t @ rs" and "next_span t' = next_span t"
    and "started rs = []" and "set (ended rs) = {sp}"
  shows "tables_track_open_spans (p\<lparr>mutationSpans := AList.delete h (mutationSpans p)\<rparr>, t')"
proof -
  from assms(1) have d: "distinct (map snd (mutationSpans p))" "distinct (map fst (mutationSpans p))"
    by (auto simp: tables_track_open_spans_def Map_values_def)
  have vs: "set (map snd (AList.delete h (mutationSpans p))) = set (map snd (mutationSpans p)) - {sp}"
    by (rule values_delete[OF d(1) assms(2) d(2)])
  have spin: "sp \<in> set (map snd (mutationSpans p))"
    using assms(2) by (rule value_in_table)
  then have spm: "sp \<notin> set (map snd (querySpans p))"
    using assms(1) by (auto simp: tables_track_open_spans_def Map_values_def)
  have spopen: "sp \<in> set (open_spans (calls t))"
    using assms(1) spin by (auto simp: tables_track_open_spans_def Map_values_def)
  then have splt: "sp < next_span t"
    using assms(1) open_spans_subset by (fastforce simp: tables_track_open_spans_def list_all_iff)
  have op: "set (open_spans (calls t')) = set (open_spans (calls t)) - {sp}"
    using assms(3,5,6) by (simp add: open_spans_finish)
  have "distinct (map fst (AList.delete h (mutationSpans p)))"
    using d by (simp add: distinct_delete)
  moreover have "distinct (map snd (querySpans p) @ map snd (AList.delete h (mutationSpans p)))"
    using assms(1) d distinct_values_delete[of "mutationSpans p" h] values_delete_subset[of h "mutationSpans p"]
    by (auto simp: tables_track_open_spans_def Map_values_def)
  moreover have "set (map snd (querySpans p) @ map snd (AList.delete h (mutationSpans p)))
                 = set (open_spans (calls t'))"
  proof -
    have "set (map snd (querySpans p) @ map snd (mutationSpans p)) = set (open_spans (calls t))"
      using assms(1) by (simp add: tables_track_open_spans_def Map_values_def)
    then have "set (open_spans (calls t)) - {sp}
               = set (map snd (querySpans p)) \<union> (set (map snd (mutationSpans p)) - {sp})"
      using spm by (simp only: set_append) blast
    then show ?thesis
      by (simp only: set_append vs op)
  qed
  moreover have "list_all (\<lambda>s. s < next_span t') (started (calls t') @ ended (calls t'))"
    using assms(1,3,4,5,6) splt by (auto simp: tables_track_open_spans_def list_all_iff started_append ended_append)
  ultimately show ?thesis
    using assms(1) by (simp add: tables_track_open_spans_def Map_values_def)
qed

lemma finish_ok_shape:
  "started [SetStatus sp OK None, End sp None] = []"
  "set (ended [SetStatus sp OK None, End sp None]) = {sp}"
  by (simp_all add: started_def ended_def)

lemma finish_fail_shape:
  "started ([SetStatus sp ERROR m] @ (if b then [RecordException sp e] else []) @ [End sp None]) = []"
  "set (ended ([SetStatus sp ERROR m] @ (if b then [RecordException sp e] else []) @ [End sp None])) = {sp}"
  by (simp_all add: started_def ended_def)

lemma tracks_on_query_event: "tables_track_open_spans s \<Longrightarrow> tables_track_open_spans (on_query_event e s)"
proof -
  assume inv: "tables_track_open_spans s"
  obtain p t where s: "s = (p, t)" by (cases s)
  show ?thesis
    using inv
      tracks_start_query[of p t "queryHash (qe_query e)"]
      tracks_finish_query[of p t "queryHash (qe_query e)" _ _ _, OF _ _ ok_span_calls ok_span_next finish_ok_shape]
      tracks_finish_query[of p t "queryHash (qe_query e)" _ _ _, OF _ _ fail_span_calls fail_span_next finish_fail_shape]
    unfolding s
    by (auto simp: on_query_event_def Let_def Map_has_def Map_get_def Map_set_def Map_delete_def
        startSpan_def split: option.splits)
qed

lemma tracks_on_mutation_event: "tables_track_open_spans s \<Longrightarrow> tables_track_open_spans (on_mutation_event e s)"
proof -
  assume inv: "tables_track_open_spans s"
  obtain p t where s: "s = (p, t)" by (cases s)
  have "tables_track_open_spans (on_mutation_event e (p, t))"
    using inv
      tracks_start_mutation[of p t]
      tracks_finish_mutation[of p t _ _ _ _, OF _ _ ok_span_calls ok_span_next finish_ok_shape]
      tracks_finish_mutation[of p t _ _ _ _, OF _ _ fail_span_calls fail_span_next finish_fail_shape]
    unfolding s
    by (auto simp: on_mutation_event_def Let_def Map_has_def Map_get_def Map_set_def Map_delete_def
        startSpan_def split: option.splits)
  then show ?thesis by (simp add: s)
qed

lemma tracks_run: "tables_track_open_spans s \<Longrightarrow> tables_track_open_spans (run_cache_events evs s)"
  unfolding run_cache_events_def
proof (induction evs arbitrary: s)
  case Nil
  then show ?case by simp
next
  case (Cons ev evs)
  have "tables_track_open_spans (on_cache_event ev s)"
    using Cons.prems by (cases ev) (simp_all add: tracks_on_query_event tracks_on_mutation_event)
  then show ?case using Cons.IH by simp
qed

lemma tracks_initial: "tables_track_open_spans (new_query_plugin, new_tracer)"
  by (simp add: tables_track_open_spans_def new_query_plugin_def new_tracer_def Map_values_def open_spans_def
      started_def ended_def)

lemma show_int_7: "show_int 7 = ''7''"
  by (simp add: show_int_def digit_char_def)

lemma example_run:
  "run_cache_events
     [QueryEvent (example_query_event ''fetch'' JSUndefined),
      MutationEvent (example_mutation_event ''pending'' JSUndefined)]
     (new_query_plugin, new_tracer) = example_pending"
  by (simp add: run_cache_events_def example_query_event_def example_mutation_event_def
      example_pending_def new_query_plugin_def new_tracer_def on_query_event_def
      on_mutation_event_def Let_def Map_has_def Map_set_def startSpan_def mutation_label_def
      show_int_7)

text \<open>
  C3. A \<open>fetch\<close> action for a query hash that is in the query table, and a
  \<open>pending\<close> action for a mutation id that is in the mutation table, change neither
  the plugin nor the tracer: no span is started and the entry stays as it is. And after
  any sequence of cache events delivered to a fresh plugin, no key occurs twice in a
  table, no span occurs twice, and the spans in the tables are exactly the spans that
  have been started and not ended.
\<close>

theorem C3_second_start_adds_no_span:
  "(qe_type e = ''updated'' \<and> qe_action e = Some a \<and> action_type a = ''fetch'' \<and>
      Map_has (queryHash (qe_query e)) (querySpans p)
      \<longrightarrow> on_query_event e (p, t) = (p, t)) \<and>
   (me_type e' = ''updated'' \<and> me_action e' = Some a' \<and> me_mutation e' = Some m \<and>
      action_type a' = ''pending'' \<and> Map_has (mutationId m) (mutationSpans p)
      \<longrightarrow> on_mutation_event e' (p, t) = (p, t)) \<and>
   tables_track_open_spans (run_cache_events evs (new_query_plugin, new_tracer))"
proof (intro conjI impI)
  assume "qe_type e = ''updated'' \<and> qe_action e = Some a \<and> action_type a = ''fetch'' \<and>
      Map_has (queryHash (qe_query e)) (querySpans p)"
  then show "on_query_event e (p, t) = (p, t)"
    by (simp add: on_query_event_def Let_def)
next
  assume "me_type e' = ''updated'' \<and> me_action e' = Some a' \<and> me_mutation e' = Some m \<and>
      action_type a' = ''pending'' \<and> Map_has (mutationId m) (mutationSpans p)"
  then show "on_mutation_event e' (p, t) = (p, t)"
    by (simp add: on_mutation_event_def Let_def)
next
  show "tables_track_open_spans (run_cache_events evs (new_query_plugin, new_tracer))"
    using tracks_initial by (rule tracks_run)
qed

theorem C3_second_start_adds_no_span_witness:
  "Map_has ''q1'' (querySpans (fst example_pending)) \<and>
   on_query_event (example_query_event ''fetch'' JSUndefined) example_pending = example_pending \<and>
   Map_has 7 (mutationSpans (fst example_pending)) \<and>
   on_mutation_event (example_mutation_event ''pending'' JSUndefined) example_pending
     = example_pending \<and>
   tables_track_open_spans example_pending \<and>
   open_spans (calls (snd example_pending)) = [0, 1]"
proof -
  have h1: "Map_has ''q1'' (querySpans (fst example_pending))"
    and h2: "Map_has 7 (mutationSpans (fst example_pending))"
    by (simp_all add: example_pending_def Map_has_def)
  have o: "open_spans (calls (snd example_pending)) = [0, 1]"
    by (simp add: example_pending_def open_spans_def started_def ended_def)
  note inst = C3_second_start_adds_no_span
      [of "example_query_event ''fetch'' JSUndefined"
          "\<lparr>action_type = ''fetch'', action_error = JSUndefined\<rparr>"
          "fst example_pending" "snd example_pending"
          "example_mutation_event ''pending'' JSUndefined"
          "\<lparr>action_type = ''pending'', action_error = JSUndefined\<rparr>"
          "\<lparr>mutationId = 7, mutationKey_json = None\<rparr>"
          "[QueryEvent (example_query_event ''fetch'' JSUndefined),
            MutationEvent (example_mutation_event ''pending'' JSUndefined)]"]
  from inst h1 h2 o show ?thesis
    by (simp add: example_run) (simp add: example_query_event_def example_mutation_event_def)
qed

text \<open>
  C9. On an \<open>error\<close> action whose error is not an instance of \<open>Error\<close>, the query
  listener and the mutation listener make exactly two calls on the span tracked for the
  key: the status is set to \<open>ERROR\<close> with the message \<open>Unknown error\<close>, and the span is
  ended; \<open>recordException\<close> is not called, and the key leaves the table. With no span
  tracked for the key nothing happens.
\<close>

theorem C9_non_Error_failure:
  assumes "\<not> instanceof_Error (action_error a)" and "action_type a = ''error''"
  shows "(qe_type e = ''updated'' \<and> qe_action e = Some a \<longrightarrow>
            on_query_event e (p, t) =
              (case Map_get (queryHash (qe_query e)) (querySpans p) of
                 None \<Rightarrow> (p, t)
               | Some sp \<Rightarrow>
                   (p\<lparr>querySpans := Map_delete (queryHash (qe_query e)) (querySpans p)\<rparr>,
                    t\<lparr>calls := calls t @
                        [SetStatus sp ERROR (Some ''Unknown error''), End sp None]\<rparr>))) \<and>
         (me_type e' = ''updated'' \<and> me_action e' = Some a \<and> me_mutation e' = Some m \<longrightarrow>
            on_mutation_event e' (p, t) =
              (case Map_get (mutationId m) (mutationSpans p) of
                 None \<Rightarrow> (p, t)
               | Some sp \<Rightarrow>
                   (p\<lparr>mutationSpans := Map_delete (mutationId m) (mutationSpans p)\<rparr>,
                    t\<lparr>calls := calls t @
                        [SetStatus sp ERROR (Some ''Unknown error''), End sp None]\<rparr>)))"
proof -
  have f: "\<And>sp. fail_span sp (action_error a) t
             = t\<lparr>calls := calls t @ [SetStatus sp ERROR (Some ''Unknown error''), End sp None]\<rparr>"
    using assms(1)
    by (simp add: fail_span_def Let_def cache_error_message_def setStatus_def span_end_def
        span_call_def)
  show ?thesis
    using assms(2)
    by (simp add: on_query_event_def on_mutation_event_def Let_def f split: option.splits)
qed

theorem C9_non_Error_failure_witness:
  "\<not> instanceof_Error (JSString ''boom'') \<and>
   on_query_event (example_query_event ''error'' (JSString ''boom'')) example_pending =
     (\<lparr>querySpans = [], mutationSpans = [(7, 1)]\<rparr>,
      (snd example_pending)\<lparr>calls := calls (snd example_pending) @
         [SetStatus 0 ERROR (Some ''Unknown error''), End 0 None]\<rparr>) \<and>
   on_mutation_event (example_mutation_event ''error'' (JSString ''boom'')) example_pending =
     (\<lparr>querySpans = [(''q1'', 0)], mutationSpans = []\<rparr>,
      (snd example_pending)\<lparr>calls := calls (snd example_pending) @
         [SetStatus 1 ERROR (Some ''Unknown error''), End 1 None]\<rparr>)"
  using C9_non_Error_failure
      [of "\<lparr>action_type = ''error'', action_error = JSString ''boom''\<rparr>"
          "example_query_event ''error'' (JSString ''boom'')"
          "fst example_pending" "snd example_pending"
          "example_mutation_event ''error'' (JSString ''boom'')"
          "\<lparr>mutationId = 7, mutationKey_json = None\<rparr>"]
  by (simp add: example_query_event_def example_mutation_event_def example_pending_def
      Map_get_def Map_delete_def)

subsection \<open>Navigation\<close>

text \<open>
  C7. A navigation that begins while the span of an earlier navigation is still open
  makes exactly two calls: it ends the earlier span, with no status set on it, and then
  starts a span named \<open>navigate\<close> followed by the destination path, whose attributes
  are the origin path, the destination path and the path-changed flag. The new span
  becomes the active one.
\<close>

theorem C7_navigation_supersedes_open_span:
  assumes "activeSpan p = Some prior"
  shows "onBeforeNavigate event (p, t) =
           (p\<lparr>activeSpan := Some (next_span t)\<rparr>,
            t\<lparr>next_span := Suc (next_span t),
              calls := calls t @
                [End prior None,
                 StartSpan (next_span t) (''navigate '' @ toLocation event) None
                   [(''router.from'',
                     AStr (case fromLocation event of Some f \<Rightarrow> f | None \<Rightarrow> [])),
                    (''router.to'', AStr (toLocation event)),
                    (''router.path_changed'', ABool (pathChanged event))]]\<rparr>)"
  using assms
  by (simp add: onBeforeNavigate_def Let_def startSpan_def span_end_def span_call_def)

theorem C7_navigation_supersedes_open_span_witness:
  "activeSpan (fst example_navigating) = Some 0 \<and>
   onBeforeNavigate example_navigation example_navigating =
     (\<lparr>activeSpan = Some 1\<rparr>,
      \<lparr>next_span = 2,
       calls = calls (snd example_navigating) @
         [End 0 None,
          StartSpan 1 ''navigate /b'' None
            [(''router.from'', AStr ''/a''), (''router.to'', AStr ''/b''),
             (''router.path_changed'', ABool True)]]\<rparr>)"
  using C7_navigation_supersedes_open_span
      [of "fst example_navigating" 0 example_navigation "snd example_navigating"]
  by (simp add: example_navigating_def example_navigation_def)

subsection \<open>Page load\<close>

lemma emitNavigationSpan_entry:
  "navigation_entries b = n # ns \<Longrightarrow>
   emitNavigationSpan b t =
     t\<lparr>next_span := Suc (next_span t),
       calls := calls t @
         [StartSpan (next_span t) ''document.load'' (Some (startTime n))
            (navigation_attributes b n),
          End (next_span t) (Some (loadEventEnd n))]\<rparr>"
  by (simp add: emitNavigationSpan_def startSpan_def span_end_def span_call_def)

lemma emitPaintSpans_extends:
  "\<exists>later. calls (emitPaintSpans href entries navStart t) = calls t @ later"
proof (induction entries arbitrary: t)
  case Nil
  show ?case by simp
next
  case (Cons entry entries)
  show ?case
  proof (cases "entry_name entry \<noteq> ''first-paint'' \<and>
                entry_name entry \<noteq> ''first-contentful-paint''")
    case True
    then show ?thesis using Cons.IH[of t] by simp
  next
    case False
    let ?t' = "span_end (next_span t) (Some (entry_startTime entry))
                 (snd (startSpan (entry_name entry) (Some navStart)
                    [(''document.url'', AStr href),
                     (''paint.duration_ms'', ANum (entry_startTime entry))] t))"
    obtain later where "calls (emitPaintSpans href entries navStart ?t') = calls ?t' @ later"
      using Cons.IH[of ?t'] by blast
    with False show ?thesis
      by (auto simp: startSpan_def span_end_def span_call_def)
  qed
qed

lemma document_load_spans_append:
  "document_load_spans (cs @ ds) = document_load_spans cs @ document_load_spans ds"
  by (simp add: document_load_spans_def)

lemma emitPaintSpans_no_document_load:
  "document_load_spans (calls (emitPaintSpans href entries navStart t))
     = document_load_spans (calls t)"
proof (induction entries arbitrary: t)
  case Nil
  show ?case by simp
next
  case (Cons entry entries)
  show ?case
  proof (cases "entry_name entry \<noteq> ''first-paint'' \<and>
                entry_name entry \<noteq> ''first-contentful-paint''")
    case True
    then show ?thesis using Cons.IH[of t] by simp
  next
    case False
    then have name: "entry_name entry \<noteq> ''document.load''"
      by auto
    let ?t' = "span_end (next_span t) (Some (entry_startTime entry))
                 (snd (startSpan (entry_name entry) (Some navStart)
                    [(''document.url'', AStr href),
                     (''paint.duration_ms'', ANum (entry_startTime entry))] t))"
    have "document_load_spans (calls ?t') = document_load_spans (calls t)"
      using name
      by (simp add: startSpan_def span_end_def span_call_def document_load_spans_def)
    moreover have "emitPaintSpans href (entry # entries) navStart t
                   = emitPaintSpans href entries navStart ?t'"
      using False by (auto simp: startSpan_def)
    ultimately show ?thesis
      using Cons.IH[of ?t'] by simp
  qed
qed

lemma emitLcpSpan_no_document_load:
  "document_load_spans (calls (emitLcpSpan href entries navStart t))
     = document_load_spans (calls t)"
  by (simp add: emitLcpSpan_def Let_def startSpan_def span_end_def span_call_def
      document_load_spans_def)

lemma quiet_page_event:
  assumes "\<not> is_WindowLoad ev"
  shows "load_listener (fst (on_page_event ev s)) = load_listener (fst s) \<and>
         document_load_spans (calls (snd (on_page_event ev s)))
           = document_load_spans (calls (snd s))"
proof -
  obtain p t where s: "s = (p, t)" by (cases s)
  show ?thesis
    using assms unfolding s
    by (cases ev)
      (simp_all add: emitPaintSpans_no_document_load emitLcpSpan_no_document_load)
qed

lemma quiet_page_events:
  "list_all (\<lambda>ev. \<not> is_WindowLoad ev) evs \<Longrightarrow>
   load_listener (fst (run_page_events evs s)) = load_listener (fst s) \<and>
   document_load_spans (calls (snd (run_page_events evs s)))
     = document_load_spans (calls (snd s))"
  unfolding run_page_events_def
proof (induction evs arbitrary: s)
  case Nil
  show ?case by simp
next
  case (Cons ev evs)
  from Cons.prems have q: "\<not> is_WindowLoad ev" and rest: "list_all (\<lambda>ev. \<not> is_WindowLoad ev) evs"
    by simp_all
  show ?case
    using Cons.IH[OF rest, of "on_page_event ev s"] quiet_page_event[OF q, of s]
    by simp
qed

lemma setup_complete:
  assumes "readyState b = ''complete''"
  shows "load_listener (fst (document_load_setup b (p, t))) = load_listener p"
    and "\<exists>later. calls (snd (document_load_setup b (p, t)))
                   = calls (emitNavigationSpan b t) @ later"
proof -
  show "load_listener (fst (document_load_setup b (p, t))) = load_listener p"
    using assms by (simp add: document_load_setup_def Let_def)
  show "\<exists>later. calls (snd (document_load_setup b (p, t)))
                   = calls (emitNavigationSpan b t) @ later"
    using assms emitPaintSpans_extends
    by (simp add: document_load_setup_def Let_def)
qed

lemma setup_not_complete:
  assumes "readyState b \<noteq> ''complete''"
  shows "load_listener (fst (document_load_setup b (p, t)))"
    and "document_load_spans (calls (snd (document_load_setup b (p, t))))
           = document_load_spans (calls t)"
  using assms
  by (simp_all add: document_load_setup_def Let_def emitPaintSpans_no_document_load)

text \<open>
  C8. When \<open>document.readyState\<close> is \<open>complete\<close> at setup and the timeline holds a
  navigation entry, the first two calls of setup start the \<open>document.load\<close> span at the
  entry's \<open>startTime\<close> and end it at the entry's \<open>loadEventEnd\<close>, and setup registers no
  \<open>load\<close> listener. When the document is not complete, setup registers the listener and
  neither setup nor any later observer callback starts a \<open>document.load\<close> span; the
  \<open>load\<close> event then emits the span from the timeline as it is at that moment and
  removes the listener, so that a further \<open>load\<close> event does nothing.
\<close>

theorem C8_navigation_span_now_or_on_load:
  "(readyState b = ''complete'' \<and> navigation_entries b = n # ns \<longrightarrow>
      load_listener (fst (document_load_setup b (p, t))) = load_listener p \<and>
      (\<exists>later. calls (snd (document_load_setup b (p, t))) =
         calls t @
         [StartSpan (next_span t) ''document.load'' (Some (startTime n))
            (navigation_attributes b n),
          End (next_span t) (Some (loadEventEnd n))] @ later)) \<and>
   (readyState b \<noteq> ''complete'' \<and> list_all (\<lambda>ev. \<not> is_WindowLoad ev) evs \<longrightarrow>
      (let s = run_page_events evs (document_load_setup b (p, t));
           s' = on_page_event (WindowLoad b') s
       in load_listener (fst s) \<and>
          document_load_spans (calls (snd s)) = document_load_spans (calls t) \<and>
          snd s' = emitNavigationSpan b' (snd s) \<and>
          \<not> load_listener (fst s') \<and>
          on_page_event (WindowLoad b'') s' = s'))"
proof (intro conjI impI)
  assume a: "readyState b = ''complete'' \<and> navigation_entries b = n # ns"
  then show "load_listener (fst (document_load_setup b (p, t))) = load_listener p"
    using setup_complete(1) by blast
  from a obtain later where
    "calls (snd (document_load_setup b (p, t))) = calls (emitNavigationSpan b t) @ later"
    using setup_complete(2) by blast
  with a show "\<exists>later. calls (snd (document_load_setup b (p, t))) =
         calls t @
         [StartSpan (next_span t) ''document.load'' (Some (startTime n))
            (navigation_attributes b n),
          End (next_span t) (Some (loadEventEnd n))] @ later"
    by (simp add: emitNavigationSpan_entry)
next
  assume a: "readyState b \<noteq> ''complete'' \<and> list_all (\<lambda>ev. \<not> is_WindowLoad ev) evs"
  define s where "s = run_page_events evs (document_load_setup b (p, t))"
  obtain q u where qu: "s = (q, u)" by (cases s)
  have l: "load_listener (fst s)"
    and d: "document_load_spans (calls (snd s)) = document_load_spans (calls t)"
    using a quiet_page_events[of evs "document_load_setup b (p, t)"] setup_not_complete[of b p t]
    by (simp_all add: s_def)
  show "let s = run_page_events evs (document_load_setup b (p, t));
            s' = on_page_event (WindowLoad b') s
        in load_listener (fst s) \<and>
           document_load_spans (calls (snd s)) = document_load_spans (calls t) \<and>
           snd s' = emitNavigationSpan b' (snd s) \<and>
           \<not> load_listener (fst s') \<and>
           on_page_event (WindowLoad b'') s' = s'"
    using l d unfolding Let_def s_def[symmetric] qu by simp
qed

lemma example_setup_complete:
  "document_load_setup (example_browser ''complete'') (new_document_load_plugin, new_tracer) =
     (\<lparr>observer = Some (), lcp_observing = True, paint_observing = True,
       load_listener = False, navigationStart = 0\<rparr>,
      \<lparr>next_span = 1,
       calls = [StartSpan 0 ''document.load'' (Some 0)
                  (navigation_attributes (example_browser ''complete'') example_timing),
                End 0 (Some 90)]\<rparr>)"
  by (simp add: document_load_setup_def Let_def example_browser_def example_timing_def
      new_document_load_plugin_def new_tracer_def emitNavigationSpan_def startSpan_def
      span_end_def span_call_def)

lemma example_setup_loading:
  "document_load_setup (example_browser ''loading'') (new_document_load_plugin, new_tracer) =
     (\<lparr>observer = Some (), lcp_observing = True, paint_observing = True,
       load_listener = True, navigationStart = 0\<rparr>,
      new_tracer)"
  by (simp add: document_load_setup_def Let_def example_browser_def example_timing_def
      new_document_load_plugin_def)

lemma example_observed:
  "run_page_events
     [PaintObserved (example_browser ''loading'')
        [\<lparr>entry_name = ''first-paint'', entry_startTime = 40, entry_element = None,
          entry_size = None\<rparr>]]
     (document_load_setup (example_browser ''loading'') (new_document_load_plugin, new_tracer)) =
     (\<lparr>observer = Some (), lcp_observing = True, paint_observing = False,
       load_listener = True, navigationStart = 0\<rparr>,
      \<lparr>next_span = 1,
       calls = [StartSpan 0 ''first-paint'' (Some 0)
                  [(''document.url'', AStr ''https://app.test/''),
                   (''paint.duration_ms'', ANum 40)],
                End 0 (Some 40)]\<rparr>)"
  by (simp add: example_setup_loading run_page_events_def)
    (simp add: example_browser_def new_tracer_def startSpan_def span_end_def span_call_def)

theorem C8_navigation_span_now_or_on_load_witness:
  "readyState (example_browser ''complete'') = ''complete'' \<and>
   navigation_entries (example_browser ''complete'') = [example_timing] \<and>
   calls (snd (document_load_setup (example_browser ''complete'')
                 (new_document_load_plugin, new_tracer))) =
     [StartSpan 0 ''document.load'' (Some (startTime example_timing))
        (navigation_attributes (example_browser ''complete'') example_timing),
      End 0 (Some (loadEventEnd example_timing))] \<and>
   readyState (example_browser ''loading'') \<noteq> ''complete'' \<and>
   load_listener (fst (document_load_setup (example_browser ''loading'')
                         (new_document_load_plugin, new_tracer))) \<and>
   calls (snd (document_load_setup (example_browser ''loading'')
                 (new_document_load_plugin, new_tracer))) = [] \<and>
   calls (snd (on_page_event (WindowLoad (example_browser ''complete''))
                 (run_page_events
                    [PaintObserved (example_browser ''loading'')
                       [\<lparr>entry_name = ''first-paint'', entry_startTime = 40,
                         entry_element = None, entry_size = None\<rparr>]]
                    (document_load_setup (example_browser ''loading'')
                       (new_document_load_plugin, new_tracer))))) =
     [StartSpan 0 ''first-paint'' (Some 0)
        [(''document.url'', AStr ''https://app.test/''), (''paint.duration_ms'', ANum 40)],
      End 0 (Some 40),
      StartSpan 1 ''document.load'' (Some 0)
        (navigation_attributes (example_browser ''complete'') example_timing),
      End 1 (Some 90)]"
proof -
  note now = C8_navigation_span_now_or_on_load
      [of "example_browser ''complete''" example_timing "[]" new_document_load_plugin new_tracer
          "[]" "example_browser ''complete''" "example_browser ''complete''"]
  note later = C8_navigation_span_now_or_on_load
      [of "example_browser ''loading''" example_timing "[]" new_document_load_plugin new_tracer
          "[PaintObserved (example_browser ''loading'')
              [\<lparr>entry_name = ''first-paint'', entry_startTime = 40, entry_element = None,
                entry_size = None\<rparr>]]"
          "example_browser ''complete''" "example_browser ''complete''"]
  have c: "readyState (example_browser ''complete'') = ''complete''"
    "navigation_entries (example_browser st) = [example_timing]"
    "readyState (example_browser ''loading'') \<noteq> ''complete''" for st
    by (simp_all add: example_browser_def)
  have e: "emitNavigationSpan (example_browser ''complete'') t =
     t\<lparr>next_span := Suc (next_span t),
       calls := calls t @
         [StartSpan (next_span t) ''document.load'' (Some 0)
            (navigation_attributes (example_browser ''complete'') example_timing),
          End (next_span t) (Some 90)]\<rparr>" for t
    by (simp add: emitNavigationSpan_entry[OF c(2)] example_timing_def)
  have t: "startTime example_timing = 0" "loadEventEnd example_timing = 90"
    by (simp_all add: example_timing_def)
  have nt: "calls new_tracer = []"
    by (simp add: new_tracer_def)
  from now later c show ?thesis
    by (simp add: example_setup_complete example_observed e t nt Let_def)
      (simp add: example_setup_loading nt)
qed

subsection \<open>HTTP\<close>

lemma RegExp_search_none:
  "(\<And>j. i \<le> j \<Longrightarrow> m s j = None) \<Longrightarrow> RegExp_search m s i rest = None"
  by (induction rest arbitrary: i) simp_all

lemma RegExp_search_here: "m s i = Some e \<Longrightarrow> RegExp_search m s i rest = Some e"
  by (cases rest) simp_all

lemma RegExp_test_whole_string:
  "RegExp_test (whole_string text) url = (url = text, whole_string text)"
proof (cases "url = text")
  case True
  then have "RegExp_search (match_at (whole_string text)) url 0 url = Some (length url)"
    by (intro RegExp_search_here) (simp add: whole_string_def)
  with True show ?thesis
    by (simp add: RegExp_test_def Let_def) (simp add: whole_string_def)
next
  case False
  then have "RegExp_search (match_at (whole_string text)) url 0 url = None"
    by (intro RegExp_search_none) (simp add: whole_string_def)
  with False show ?thesis
    by (simp add: RegExp_test_def Let_def) (simp add: whole_string_def)
qed

lemma example_regexps_at:
  "example_regexps 0 = whole_string ''https://collector.test/v1/traces''"
  "example_regexps (Suc 0) = whole_string ''https://api.test/users''"
  by (simp_all add: example_regexps_def)

lemma example_ignored:
  "matchesAny url (ignoreUrls example_config) example_regexps
     = (url = ''https://collector.test/v1/traces'', example_regexps)"
proof -
  have "RegExp_test (example_regexps 0) url
          = (url = ''https://collector.test/v1/traces'', example_regexps 0)"
    by (simp add: example_regexps_at RegExp_test_whole_string)
  then show ?thesis
    by (simp add: ignoreUrls_def example_config_def)
qed

lemma example_propagated:
  "matchesAny url (propagateToUrls example_config) example_regexps
     = (url = ''https://api.test/users'', example_regexps)"
proof -
  have "RegExp_test (example_regexps (Suc 0)) url
          = (url = ''https://api.test/users'', example_regexps (Suc 0))"
    by (simp add: example_regexps_at RegExp_test_whole_string)
  then show ?thesis
    by (simp add: propagateToUrls_def example_config_def)
qed

text \<open>
  The pattern \<open>/\/t/g\<close> on the URL it matches: the first \<open>test\<close> answers true and leaves
  \<open>lastIndex\<close> at the end of the string, the second answers false and resets it.
\<close>

lemma global_pattern_first:
  "RegExp_test (literal ''/t'' True) ''https://c.test/t''
     = (True, (literal ''/t'' True)\<lparr>lastIndex := 16\<rparr>)"
  by (simp add: RegExp_test_def literal_def Let_def)

lemma global_pattern_second:
  "RegExp_test ((literal ''/t'' True)\<lparr>lastIndex := 16\<rparr>) ''https://c.test/t''
     = (False, literal ''/t'' True)"
  by (simp add: RegExp_test_def literal_def Let_def)

lemma global_store_first:
  "matchesAny ''https://c.test/t'' [0] (\<lambda>r. literal ''/t'' True)
     = (True, (\<lambda>r. literal ''/t'' True)(0 := (literal ''/t'' True)\<lparr>lastIndex := 16\<rparr>))"
  by (simp add: global_pattern_first)

lemma global_store_second:
  "matchesAny ''https://c.test/t'' [0]
     ((\<lambda>r. literal ''/t'' True)(0 := (literal ''/t'' True)\<lparr>lastIndex := 16\<rparr>))
     = (False, (\<lambda>r. literal ''/t'' True))"
  by (simp add: global_pattern_second fun_eq_iff)

lemma example_setup:
  "fetch_setup (new_fetch_plugin, example_globals) =
     (example_plugin,
      \<lparr>global_fetch = PatchedFetch, XMLHttpRequest_open = PatchedXhrOpen,
       XMLHttpRequest_send = PatchedXhrSend\<rparr>)"
  by (simp add: fetch_setup_def patchFetch_def patchXhr_def new_fetch_plugin_def
      example_globals_def example_plugin_def)

lemma example_resolve:
  "resolveUrl example_host (InputString url) = Inr url"
  by (simp add: resolveUrl_def example_host_def)

lemma show_int_304: "show_int 304 = ''304''"
  by (simp add: show_int_def digit_char_def)

text \<open>
  A request that is not ignored: what the patched \<open>fetch\<close> returns and what it leaves
  behind, by the outcome of the original call.
\<close>

lemma patched_fetch_instrumented:
  assumes "resolveUrl h input = Inr url"
    and "matchesAny url (ignoreUrls config) (regexps w) = (False, store1)"
    and "matchesAny url (propagateToUrls config) store1 = (propagate, store2)"
    and "originalFetch p = Some f"
  shows "patched_fetch h config p input init outcome w =
     (outcome,
      w\<lparr>trace := (trace w)
           \<lparr>next_span := Suc (next_span (trace w)),
            calls := calls (trace w) @
              StartSpan (next_span (trace w)) (''HTTP '' @ resolveMethod input init) None
                [(''http.method'', AStr (resolveMethod input init)), (''http.url'', AStr url)] #
              (case outcome of
                 Inr resp \<Rightarrow>
                   [SetAttributes (next_span (trace w))
                      [(''http.status_code'', ANum (of_int (status resp))),
                       (''http.response.content_length'',
                        ANum (case content_length resp of None \<Rightarrow> 0 | Some n \<Rightarrow> n))],
                    (if ok resp then SetStatus (next_span (trace w)) OK None
                     else SetStatus (next_span (trace w)) ERROR
                            (Some (''HTTP '' @ show_int (status resp)))),
                    End (next_span (trace w)) None]
               | Inl error \<Rightarrow>
                   [SetStatus (next_span (trace w)) ERROR
                      (Some (if instanceof_Error error then message error
                             else ''Fetch failed''))] @
                   (if instanceof_Error error
                    then [RecordException (next_span (trace w)) error] else []) @
                   [End (next_span (trace w)) None])\<rparr>,
        outgoing := outgoing w @
          [FetchCall f input
             (Some ((case init of None \<Rightarrow> empty_RequestInit | Some i \<Rightarrow> i)
                \<lparr>init_headers :=
                  Some (if propagate
                        then injectTraceHeaders h
                               (new_Headers (case init of None \<Rightarrow> None
                                             | Some i \<Rightarrow> init_headers i))
                        else new_Headers (case init of None \<Rightarrow> None
                                          | Some i \<Rightarrow> init_headers i))\<rparr>))],
        regexps := store2\<rparr>)"
proof (cases outcome)
  case (Inl error)
  show ?thesis
    unfolding Inl using assms
    by (simp add: patched_fetch_def Let_def startSpan_def call_originalFetch_def
        fetch_failure_message_def setStatus_def recordException_def span_end_def span_call_def)
next
  case (Inr resp)
  show ?thesis
    unfolding Inr using assms
    by (simp add: patched_fetch_def Let_def startSpan_def call_originalFetch_def
        setAttributes_def setStatus_def span_end_def span_call_def)
qed

lemma not_ignored:
  "\<not> fst (matchesAny url ps store) \<Longrightarrow>
   matchesAny url ps store = (False, snd (matchesAny url ps store))"
  by (cases "matchesAny url ps store") simp

text \<open>A request that is ignored goes to the original \<open>fetch\<close> as it came.\<close>

lemma patched_fetch_ignored:
  assumes "resolveUrl h input = Inr url"
    and "matchesAny url (ignoreUrls config) (regexps w) = (True, store1)"
    and "originalFetch p = Some f"
  shows "patched_fetch h config p input init outcome w =
           (outcome, w\<lparr>outgoing := outgoing w @ [FetchCall f input init], regexps := store1\<rparr>)"
  using assms by (simp add: patched_fetch_def call_originalFetch_def)

text \<open>
  Patterns without the \<open>g\<close> and the \<open>y\<close> flag: \<open>test\<close> leaves them as they are, so
  \<open>matchesAny\<close> leaves the store as it is and answers whether some pattern matches.
\<close>

lemma RegExp_test_flagless:
  "\<not> global r \<Longrightarrow> \<not> sticky r \<Longrightarrow> snd (RegExp_test r s) = r"
  by (simp add: RegExp_test_def Let_def split: option.splits)

lemma matchesAny_flagless:
  assumes "\<forall>p \<in> set ps. \<not> global (store p) \<and> \<not> sticky (store p)"
  shows "matchesAny url ps store = (list_ex (\<lambda>p. fst (RegExp_test (store p) url)) ps, store)"
  using assms
proof (induction ps)
  case Nil
  show ?case by simp
next
  case (Cons p ps)
  obtain answer r where t: "RegExp_test (store p) url = (answer, r)"
    by (cases "RegExp_test (store p) url")
  have "r = store p"
    using RegExp_test_flagless[of "store p" url] Cons.prems t by simp
  then have "store(p := r) = store"
    by simp
  with Cons t show ?case
    by simp
qed

lemma patched_fetch_ignored_flagless:
  assumes "resolveUrl h input = Inr url"
    and "\<forall>p \<in> set (ignoreUrls config). \<not> global (regexps w p) \<and> \<not> sticky (regexps w p)"
    and "list_ex (\<lambda>p. fst (RegExp_test (regexps w p) url)) (ignoreUrls config)"
    and "originalFetch p = Some f"
  shows "patched_fetch h config p input init outcome w =
           (outcome, w\<lparr>outgoing := outgoing w @ [FetchCall f input init]\<rparr>)"
  using patched_fetch_ignored[OF assms(1) _ assms(4), of config w "regexps w" init outcome]
    matchesAny_flagless[OF assms(2), of url] assms(3)
  by simp

subsubsection \<open>The patched send\<close>

lemma fold_setRequestHeader:
  "fold (\<lambda>(key, v). setRequestHeader key v) carrier this
     = this\<lparr>requestHeaders := requestHeaders this @ carrier\<rparr>"
proof (induction carrier arbitrary: this)
  case Nil
  show ?case by simp
next
  case (Cons entry carrier)
  obtain key v where e: "entry = (key, v)" by (cases entry)
  show ?case
    by (simp add: e Cons.IH) (simp add: setRequestHeader_def)
qed

text \<open>A request that is not ignored: what the patched \<open>send\<close> leaves behind.\<close>

lemma patched_send_instrumented:
  assumes "otel_url this = Some url" and "otel_method this = Some method"
    and "url \<noteq> []" and "method \<noteq> []"
    and "matchesAny url (ignoreUrls config) (regexps w) = (False, store1)"
    and "matchesAny url (propagateToUrls config) store1 = (propagate, store2)"
    and "originalXhrSend p = Some f"
  shows "patched_send h config p body outcome (this, w) =
     (outcome,
      this\<lparr>requestHeaders := requestHeaders this @
               (if propagate then propagation_inject h else []),
           listeners := listeners this @
               [(''loadend'', LoadendListener (next_span (trace w))),
                (''error'', ErrorListener (next_span (trace w)))]\<rparr>,
      w\<lparr>trace := (trace w)
           \<lparr>next_span := Suc (next_span (trace w)),
            calls := calls (trace w) @
              [StartSpan (next_span (trace w)) (''HTTP '' @ method) None
                 [(''http.method'', AStr method), (''http.url'', AStr url)]]\<rparr>,
        outgoing := outgoing w @ [XhrSendCall f body],
        regexps := store2\<rparr>)"
  using assms
  by (simp add: patched_send_def send_instrumented_def Let_def startSpan_def
      call_originalXhrSend_def fold_setRequestHeader addEventListener_def)

lemma patched_send_ignored:
  assumes "otel_url this = Some url" and "otel_method this = Some method"
    and "url \<noteq> []" and "method \<noteq> []"
    and "matchesAny url (ignoreUrls config) (regexps w) = (True, store1)"
    and "originalXhrSend p = Some f"
  shows "patched_send h config p body outcome (this, w) =
           (outcome, this,
            w\<lparr>outgoing := outgoing w @ [XhrSendCall f body], regexps := store1\<rparr>)"
  using assms
  by (simp add: patched_send_def Let_def call_originalXhrSend_def)

text \<open>
  The calls made on the tracer by an instrumented \<open>send\<close> followed by the \<open>loadend\<close>
  event, on a request that had no listeners of the plugin yet.
\<close>

lemma send_then_loadend:
  assumes "otel_url this = Some url" and "otel_method this = Some method"
    and "url \<noteq> []" and "method \<noteq> []"
    and "\<not> fst (matchesAny url (ignoreUrls config) (regexps w))"
    and "originalXhrSend p = Some f"
    and "listeners this = []"
    and "patched_send h config p body outcome (this, w) = (r, this', w')"
  shows "calls (dispatchEvent ''loadend'' (this'\<lparr>xhr_status := s\<rparr>) (trace w')) =
           calls (trace w) @
             [StartSpan (next_span (trace w)) (''HTTP '' @ method) None
                [(''http.method'', AStr method), (''http.url'', AStr url)],
              SetAttribute (next_span (trace w)) ''http.status_code'' (ANum (of_int s)),
              (if 200 \<le> s \<and> s < 400 then SetStatus (next_span (trace w)) OK None
               else SetStatus (next_span (trace w)) ERROR (Some (''HTTP '' @ show_int s))),
              End (next_span (trace w)) None]"
proof -
  obtain propagate store2 where
    m2: "matchesAny url (propagateToUrls config)
           (snd (matchesAny url (ignoreUrls config) (regexps w))) = (propagate, store2)"
    by (cases "matchesAny url (propagateToUrls config)
           (snd (matchesAny url (ignoreUrls config) (regexps w)))")
  note eq = patched_send_instrumented
      [OF assms(1-4) not_ignored[OF assms(5)] m2 assms(6), of h body outcome]
  from eq assms(8) have
    tr: "trace w' = (trace w)
           \<lparr>next_span := Suc (next_span (trace w)),
            calls := calls (trace w) @
              [StartSpan (next_span (trace w)) (''HTTP '' @ method) None
                 [(''http.method'', AStr method), (''http.url'', AStr url)]]\<rparr>"
    and ls: "listeners this' =
               [(''loadend'', LoadendListener (next_span (trace w))),
                (''error'', ErrorListener (next_span (trace w)))]"
    using assms(7) by auto
  show ?thesis
    by (simp add: dispatchEvent_def ls tr Let_def setAttribute_def setStatus_def span_end_def
        span_call_def)
qed

text \<open>
  C1. The property: the span of a completed, instrumented request is marked \<open>OK\<close> when
  the status is in the success or redirect range, and \<open>ERROR\<close> with a message holding
  the status otherwise, before it is ended. The patched \<open>send\<close> does this for every
  status (\<open>send_then_loadend\<close>); the patched \<open>fetch\<close> decides on \<open>response.ok\<close>
  (\<open>patched_fetch_instrumented\<close>) and so departs from it on a redirect-range status: a
  response with status 304, for which the platform sets \<open>ok\<close> to false, gets status
  \<open>ERROR\<close> with message \<open>HTTP 304\<close> through \<open>fetch\<close>, and status \<open>OK\<close> through
  \<open>send\<close> and \<open>loadend\<close>.
\<close>

theorem C1_fetch_marks_status_304_ERROR:
  "platform_response \<lparr>status = 304, ok = False, content_length = None\<rparr> \<and>
   calls (trace (snd (patched_fetch example_host example_config example_plugin
                        (InputString ''https://app.test/data'') None
                        (Inr \<lparr>status = 304, ok = False, content_length = None\<rparr>) new_world))) =
     [StartSpan 0 ''HTTP GET'' None
        [(''http.method'', AStr ''GET''), (''http.url'', AStr ''https://app.test/data'')],
      SetAttributes 0
        [(''http.status_code'', ANum 304), (''http.response.content_length'', ANum 0)],
      SetStatus 0 ERROR (Some ''HTTP 304''),
      End 0 None] \<and>
   (case patched_send example_host example_config example_plugin None (Inr ())
           (example_opened ''https://app.test/data'', new_world) of
      (r, this, w) \<Rightarrow> calls (dispatchEvent ''loadend'' (this\<lparr>xhr_status := 304\<rparr>) (trace w))) =
     [StartSpan 0 ''HTTP GET'' None
        [(''http.method'', AStr ''GET''), (''http.url'', AStr ''https://app.test/data'')],
      SetAttribute 0 ''http.status_code'' (ANum 304),
      SetStatus 0 OK None,
      End 0 None]"
proof (intro conjI)
  show "platform_response \<lparr>status = 304, ok = False, content_length = None\<rparr>"
    by (simp add: platform_response_def)
  have r: "resolveUrl example_host (InputString ''https://app.test/data'')
             = Inr ''https://app.test/data''"
    by (rule example_resolve)
  have i: "matchesAny ''https://app.test/data'' (ignoreUrls example_config) (regexps new_world)
             = (False, example_regexps)"
    by (simp add: new_world_def example_ignored)
  have g: "matchesAny ''https://app.test/data'' (propagateToUrls example_config) example_regexps
             = (False, example_regexps)"
    by (simp add: example_propagated)
  have f: "originalFetch example_plugin = Some (Host 0)"
    "originalXhrSend example_plugin = Some (Host 2)"
    by (simp_all add: example_plugin_def)
  have nw: "trace new_world = new_tracer" "outgoing new_world = []"
    by (simp_all add: new_world_def)
  show "calls (trace (snd (patched_fetch example_host example_config example_plugin
                        (InputString ''https://app.test/data'') None
                        (Inr \<lparr>status = 304, ok = False, content_length = None\<rparr>) new_world))) =
     [StartSpan 0 ''HTTP GET'' None
        [(''http.method'', AStr ''GET''), (''http.url'', AStr ''https://app.test/data'')],
      SetAttributes 0
        [(''http.status_code'', ANum 304), (''http.response.content_length'', ANum 0)],
      SetStatus 0 ERROR (Some ''HTTP 304''),
      End 0 None]"
    by (simp add: patched_fetch_instrumented[OF r i g f(1)] nw resolveMethod_def
        new_tracer_def show_int_304)
  obtain r' this' w' where
    s: "patched_send example_host example_config example_plugin None (Inr ())
          (example_opened ''https://app.test/data'', new_world) = (r', this', w')"
    by (cases "patched_send example_host example_config example_plugin None (Inr ())
          (example_opened ''https://app.test/data'', new_world)")
  have o: "otel_url (example_opened ''https://app.test/data'') = Some ''https://app.test/data''"
    "otel_method (example_opened ''https://app.test/data'') = Some ''GET''"
    "listeners (example_opened ''https://app.test/data'') = []"
    by (simp_all add: example_opened_def new_xhr_def)
  have ni: "\<not> fst (matchesAny ''https://app.test/data'' (ignoreUrls example_config)
                     (regexps new_world))"
    by (simp add: i)
  have "calls (dispatchEvent ''loadend'' (this'\<lparr>xhr_status := 304\<rparr>) (trace w')) =
     [StartSpan 0 ''HTTP GET'' None
        [(''http.method'', AStr ''GET''), (''http.url'', AStr ''https://app.test/data'')],
      SetAttribute 0 ''http.status_code'' (ANum 304),
      SetStatus 0 OK None,
      End 0 None]"
    using send_then_loadend[OF o(1) o(2) _ _ ni f(2) o(3) s, of 304]
    by (simp add: nw new_tracer_def)
  then show "(case patched_send example_host example_config example_plugin None (Inr ())
           (example_opened ''https://app.test/data'', new_world) of
      (r, this, w) \<Rightarrow> calls (dispatchEvent ''loadend'' (this\<lparr>xhr_status := 304\<rparr>) (trace w))) =
     [StartSpan 0 ''HTTP GET'' None
        [(''http.method'', AStr ''GET''), (''http.url'', AStr ''https://app.test/data'')],
      SetAttribute 0 ''http.status_code'' (ANum 304),
      SetStatus 0 OK None,
      End 0 None]"
    by (simp add: s)
qed

text \<open>
  C2. Teardown after setup puts back the three functions setup found in place and
  leaves the plugin holding none of them; teardown of a plugin that holds none (never
  set up, or already torn down) changes nothing; and setup does install its own three
  functions.
\<close>

theorem C2_teardown_restores_original_functions:
  "fetch_teardown (fetch_setup (p, g)) = (new_fetch_plugin, g) \<and>
   fetch_teardown (new_fetch_plugin, g) = (new_fetch_plugin, g) \<and>
   fetch_teardown (fetch_teardown s) = fetch_teardown s \<and>
   snd (fetch_setup (p, g)) =
     g\<lparr>global_fetch := PatchedFetch, XMLHttpRequest_open := PatchedXhrOpen,
       XMLHttpRequest_send := PatchedXhrSend\<rparr>"
proof (intro conjI)
  show "fetch_teardown (fetch_setup (p, g)) = (new_fetch_plugin, g)"
    by (simp add: fetch_teardown_def fetch_setup_def patchFetch_def patchXhr_def
        new_fetch_plugin_def)
  show "fetch_teardown (new_fetch_plugin, g) = (new_fetch_plugin, g)"
    by (simp add: fetch_teardown_def new_fetch_plugin_def)
  show "fetch_teardown (fetch_teardown s) = fetch_teardown s"
    by (cases s) (simp add: fetch_teardown_def split: option.splits)
  show "snd (fetch_setup (p, g)) =
     g\<lparr>global_fetch := PatchedFetch, XMLHttpRequest_open := PatchedXhrOpen,
       XMLHttpRequest_send := PatchedXhrSend\<rparr>"
    by (simp add: fetch_setup_def patchFetch_def patchXhr_def)
qed

text \<open>
  C4. When the original \<open>fetch\<close> throws (or rejects with) a value, the patched
  \<open>fetch\<close> of an instrumented request sets the span's status to \<open>ERROR\<close>, records the
  exception when the value is an \<open>Error\<close>, ends the span, and fails with that very
  same value.
\<close>

theorem C4_fetch_failure_recorded_and_rethrown:
  assumes "resolveUrl h input = Inr url"
    and "\<not> fst (matchesAny url (ignoreUrls config) (regexps w))"
    and "originalFetch p = Some f"
  shows "fst (patched_fetch h config p input init (Inl error) w) = Inl error \<and>
         trace (snd (patched_fetch h config p input init (Inl error) w)) =
           (trace w)\<lparr>next_span := Suc (next_span (trace w)),
             calls := calls (trace w) @
               [StartSpan (next_span (trace w)) (''HTTP '' @ resolveMethod input init) None
                  [(''http.method'', AStr (resolveMethod input init)), (''http.url'', AStr url)],
                SetStatus (next_span (trace w)) ERROR
                  (Some (if instanceof_Error error then message error else ''Fetch failed''))] @
               (if instanceof_Error error
                then [RecordException (next_span (trace w)) error] else []) @
               [End (next_span (trace w)) None]\<rparr>"
proof -
  obtain propagate store2 where
    m2: "matchesAny url (propagateToUrls config)
           (snd (matchesAny url (ignoreUrls config) (regexps w))) = (propagate, store2)"
    by (cases "matchesAny url (propagateToUrls config)
           (snd (matchesAny url (ignoreUrls config) (regexps w)))")
  show ?thesis
    by (simp add: patched_fetch_instrumented
        [OF assms(1) not_ignored[OF assms(2)] m2 assms(3), where outcome = "Inl error"])
qed

theorem C4_fetch_failure_recorded_and_rethrown_witness:
  "resolveUrl example_host (InputString ''https://app.test/data'') = Inr ''https://app.test/data'' \<and>
   \<not> fst (matchesAny ''https://app.test/data'' (ignoreUrls example_config) (regexps new_world)) \<and>
   originalFetch example_plugin = Some (Host 0) \<and>
   fst (patched_fetch example_host example_config example_plugin
          (InputString ''https://app.test/data'') None (Inl (JSError ''offline'')) new_world)
     = Inl (JSError ''offline'') \<and>
   calls (trace (snd (patched_fetch example_host example_config example_plugin
          (InputString ''https://app.test/data'') None (Inl (JSError ''offline'')) new_world))) =
     [StartSpan 0 ''HTTP GET'' None
        [(''http.method'', AStr ''GET''), (''http.url'', AStr ''https://app.test/data'')],
      SetStatus 0 ERROR (Some ''offline''),
      RecordException 0 (JSError ''offline''),
      End 0 None]"
proof -
  have r: "resolveUrl example_host (InputString ''https://app.test/data'')
             = Inr ''https://app.test/data''"
    by (rule example_resolve)
  have i: "\<not> fst (matchesAny ''https://app.test/data'' (ignoreUrls example_config)
                    (regexps new_world))"
    by (simp add: new_world_def example_ignored)
  have f: "originalFetch example_plugin = Some (Host 0)"
    by (simp add: example_plugin_def)
  have nw: "trace new_world = new_tracer"
    by (simp add: new_world_def)
  show ?thesis
    using C4_fetch_failure_recorded_and_rethrown[OF r i f, of None "JSError ''offline''"]
      r i f
    by (simp add: resolveMethod_def nw new_tracer_def)
qed

subsubsection \<open>Propagation and exclusion\<close>

lemma update_names: "fst ` set (AList.update k v hs) = insert k (fst ` set hs)"
  by (induction hs) auto

lemma headers_set_keeps:
  "name \<in> fst ` set hs \<Longrightarrow> name \<in> fst ` set (headers_set key v hs)"
  by (simp add: headers_set_def update_names)

lemma headers_set_has:
  "toLowerCase key \<in> fst ` set (headers_set key v hs)"
  by (simp add: headers_set_def update_names)

lemma fold_headers_set_keeps:
  "name \<in> fst ` set hs \<Longrightarrow>
   name \<in> fst ` set (fold (\<lambda>(key, v). headers_set key v) carrier hs)"
proof (induction carrier arbitrary: hs)
  case Nil
  then show ?case by simp
next
  case (Cons entry carrier)
  obtain key v where e: "entry = (key, v)" by (cases entry)
  show ?case
    using Cons.IH[of "headers_set key v hs"] headers_set_keeps[OF Cons.prems, of key v]
    by (simp add: e)
qed

lemma fold_headers_set_has:
  "(key, v) \<in> set carrier \<Longrightarrow>
   toLowerCase key \<in> fst ` set (fold (\<lambda>(key, v). headers_set key v) carrier hs)"
proof (induction carrier arbitrary: hs)
  case Nil
  then show ?case by simp
next
  case (Cons entry carrier)
  obtain key' v' where e: "entry = (key', v')" by (cases entry)
  show ?case
  proof (cases "(key, v) = entry")
    case True
    then have "toLowerCase key \<in> fst ` set (headers_set key' v' hs)"
      using headers_set_has[of key' v' hs] by (simp add: e)
    then show ?thesis
      using fold_headers_set_keeps by (simp add: e)
  next
    case False
    with Cons.prems have "(key, v) \<in> set carrier" by simp
    then show ?thesis
      using Cons.IH[of "headers_set key' v' hs"] by (simp add: e)
  qed
qed

text \<open>Every name the propagator writes is on the headers after the injection.\<close>

lemma injected_headers_present:
  "list_all (\<lambda>(key, v). Map_has (toLowerCase key) (injectTraceHeaders h hs))
     (propagation_inject h)"
  unfolding list_all_iff injectTraceHeaders_def Map_has_def
  using fold_headers_set_has[of _ _ "propagation_inject h" hs]
  by (auto simp: map_of_eq_None_iff)

text \<open>
  With patterns that carry neither flag, the injected entries are set on the outgoing
  call exactly when some propagation pattern matches the URL.
\<close>

lemma patched_fetch_propagation_flagless:
  assumes "resolveUrl h input = Inr url"
    and "\<forall>r \<in> set (ignoreUrls config) \<union> set (propagateToUrls config).
           \<not> global (regexps w r) \<and> \<not> sticky (regexps w r)"
    and "\<not> list_ex (\<lambda>r. fst (RegExp_test (regexps w r) url)) (ignoreUrls config)"
    and "originalFetch p = Some f"
  shows "outgoing (snd (patched_fetch h config p input init outcome w)) =
           outgoing w @
             [FetchCall f input
                (Some ((case init of None \<Rightarrow> empty_RequestInit | Some i \<Rightarrow> i)
                   \<lparr>init_headers :=
                     Some (if list_ex (\<lambda>r. fst (RegExp_test (regexps w r) url))
                                (propagateToUrls config)
                           then injectTraceHeaders h
                                  (new_Headers (case init of None \<Rightarrow> None
                                                | Some i \<Rightarrow> init_headers i))
                           else new_Headers (case init of None \<Rightarrow> None
                                             | Some i \<Rightarrow> init_headers i))\<rparr>))]"
proof -
  have m1: "matchesAny url (ignoreUrls config) (regexps w) = (False, regexps w)"
    using matchesAny_flagless[of "ignoreUrls config" "regexps w" url] assms(2,3) by simp
  have m2: "matchesAny url (propagateToUrls config) (regexps w) =
              (list_ex (\<lambda>r. fst (RegExp_test (regexps w r) url)) (propagateToUrls config),
               regexps w)"
    using matchesAny_flagless[of "propagateToUrls config" "regexps w" url] assms(2) by simp
  show ?thesis
    by (simp add: patched_fetch_instrumented[OF assms(1) m1 m2 assms(4)])
qed

lemma global_configs:
  "ignoreUrls global_ignore_config = [0]" "propagateToUrls global_ignore_config = []"
  "ignoreUrls global_propagate_config = []" "propagateToUrls global_propagate_config = [0]"
  by (simp_all add: ignoreUrls_def propagateToUrls_def global_ignore_config_def
      global_propagate_config_def)

lemma global_world_parts:
  "trace global_world = new_tracer" "outgoing global_world = []"
  "regexps global_world = (\<lambda>r. literal ''/t'' True)"
  by (simp_all add: global_world_def)

lemma example_opened_parts:
  "otel_url (example_opened url) = Some url" "otel_method (example_opened url) = Some ''GET''"
  "requestHeaders (example_opened url) = []" "listeners (example_opened url) = []"
  by (simp_all add: example_opened_def new_xhr_def)

lemma example_inject:
  "injectTraceHeaders example_host [] = [(''traceparent'', ''00-0af7-b7ad-01'')]"
  by (simp add: injectTraceHeaders_def example_host_def headers_set_def toLowerCase_def
      toLowerCase_char_def)

text \<open>
  C5. The property: the injected entries are set on the outgoing call of an instrumented
  request exactly when its URL matches a propagation pattern. The code asks
  \<open>pattern.test(url)\<close>, which under the \<open>g\<close> flag answers by \<open>lastIndex\<close>: with the
  single propagation pattern \<open>/\/t/g\<close>, which matches \<open>https://c.test/t\<close>, the first
  request to that URL goes out with the \<open>traceparent\<close> entry and the second goes out
  without it, through \<open>fetch\<close> and through \<open>send\<close> alike. (With patterns that carry no
  flag the property holds: \<open>patched_fetch_propagation_flagless\<close>.)
\<close>

theorem C5_global_pattern_propagates_every_other_request:
  "fst (RegExp_test (literal ''/t'' True) ''https://c.test/t'') \<and>
   (let first = patched_fetch example_host global_propagate_config example_plugin
                  (InputString ''https://c.test/t'') None
                  (Inr \<lparr>status = 200, ok = True, content_length = None\<rparr>) global_world;
        second = patched_fetch example_host global_propagate_config example_plugin
                   (InputString ''https://c.test/t'') None
                   (Inr \<lparr>status = 200, ok = True, content_length = None\<rparr>) (snd first)
    in outgoing (snd first) =
         [FetchCall (Host 0) (InputString ''https://c.test/t'')
            (Some \<lparr>init_method = None,
                   init_headers = Some [(''traceparent'', ''00-0af7-b7ad-01'')],
                   init_body = None\<rparr>)] \<and>
       outgoing (snd second) =
         outgoing (snd first) @
         [FetchCall (Host 0) (InputString ''https://c.test/t'')
            (Some \<lparr>init_method = None, init_headers = Some [], init_body = None\<rparr>)]) \<and>
   (let first = patched_send example_host global_propagate_config example_plugin None (Inr ())
                  (example_opened ''https://c.test/t'', global_world);
        second = patched_send example_host global_propagate_config example_plugin None (Inr ())
                   (example_opened ''https://c.test/t'', snd (snd first))
    in requestHeaders (fst (snd first)) = [(''traceparent'', ''00-0af7-b7ad-01'')] \<and>
       requestHeaders (fst (snd second)) = [])"
proof -
  let ?url = "''https://c.test/t''"
  let ?used = "(\<lambda>r. literal ''/t'' True)(0 := (literal ''/t'' True)\<lparr>lastIndex := 16\<rparr>)"
  have r: "resolveUrl example_host (InputString ?url) = Inr ?url"
    by (rule example_resolve)
  have f: "originalFetch example_plugin = Some (Host 0)"
    "originalXhrSend example_plugin = Some (Host 2)"
    by (simp_all add: example_plugin_def)
  have c: "propagation_inject example_host = [(''traceparent'', ''00-0af7-b7ad-01'')]"
    by (simp add: example_host_def)
  have n: "new_Headers None = []"
    by (simp add: new_Headers_def)
  have i1: "matchesAny ?url (ignoreUrls global_propagate_config) (regexps global_world)
              = (False, \<lambda>r. literal ''/t'' True)"
    by (simp add: global_configs global_world_parts)
  have p1: "matchesAny ?url (propagateToUrls global_propagate_config)
              (\<lambda>r. literal ''/t'' True) = (True, ?used)"
    by (simp only: global_configs global_store_first)
  have i2: "matchesAny ?url (ignoreUrls global_propagate_config) ?used = (False, ?used)"
    by (simp add: global_configs)
  have p2: "matchesAny ?url (propagateToUrls global_propagate_config) ?used
              = (False, \<lambda>r. literal ''/t'' True)"
    by (simp only: global_configs global_store_second)
  note first = patched_fetch_instrumented[OF r i1 p1 f(1),
      where init = None and outcome = "Inr \<lparr>status = 200, ok = True, content_length = None\<rparr>"]
  have i2': "matchesAny ?url (ignoreUrls global_propagate_config)
               (regexps (snd (patched_fetch example_host global_propagate_config example_plugin
                  (InputString ?url) None
                  (Inr \<lparr>status = 200, ok = True, content_length = None\<rparr>) global_world)))
             = (False, ?used)"
    by (simp add: first i2)
  note second = patched_fetch_instrumented[OF r i2' p2 f(1),
      where init = None and outcome = "Inr \<lparr>status = 200, ok = True, content_length = None\<rparr>"]
  have fetch: "let first = patched_fetch example_host global_propagate_config example_plugin
                  (InputString ?url) None
                  (Inr \<lparr>status = 200, ok = True, content_length = None\<rparr>) global_world;
        second = patched_fetch example_host global_propagate_config example_plugin
                   (InputString ?url) None
                   (Inr \<lparr>status = 200, ok = True, content_length = None\<rparr>) (snd first)
    in outgoing (snd first) =
         [FetchCall (Host 0) (InputString ?url)
            (Some \<lparr>init_method = None,
                   init_headers = Some [(''traceparent'', ''00-0af7-b7ad-01'')],
                   init_body = None\<rparr>)] \<and>
       outgoing (snd second) =
         outgoing (snd first) @
         [FetchCall (Host 0) (InputString ?url)
            (Some \<lparr>init_method = None, init_headers = Some [], init_body = None\<rparr>)]"
    unfolding Let_def
    by (simp add: second)
      (simp add: first global_world_parts n example_inject empty_RequestInit_def)
  note o = example_opened_parts[of ?url]
  note sfirst = patched_send_instrumented[OF o(1) o(2) _ _ i1 p1 f(2),
      where h = example_host and body = None and outcome = "Inr ()"]
  have i2'': "matchesAny ?url (ignoreUrls global_propagate_config)
               (regexps (snd (snd (patched_send example_host global_propagate_config
                  example_plugin None (Inr ()) (example_opened ?url, global_world)))))
             = (False, ?used)"
    by (simp add: sfirst i2)
  note ssecond = patched_send_instrumented[OF o(1) o(2) _ _ i2'' p2 f(2),
      where h = example_host and body = None and outcome = "Inr ()"]
  have send: "let first = patched_send example_host global_propagate_config example_plugin None
                  (Inr ()) (example_opened ?url, global_world);
        second = patched_send example_host global_propagate_config example_plugin None (Inr ())
                   (example_opened ?url, snd (snd first))
    in requestHeaders (fst (snd first)) = [(''traceparent'', ''00-0af7-b7ad-01'')] \<and>
       requestHeaders (fst (snd second)) = []"
    unfolding Let_def
    by (simp add: ssecond) (simp add: sfirst o c)
  have "fst (RegExp_test (literal ''/t'' True) ?url)"
    by (simp add: global_pattern_first)
  with fetch send show ?thesis
    by blast
qed

text \<open>
  With patterns that carry neither flag, a request whose URL some exclusion pattern
  matches is passed on by the patched \<open>send\<close> as it came.
\<close>

lemma patched_send_ignored_flagless:
  assumes "otel_url this = Some url" and "otel_method this = Some method"
    and "url \<noteq> []" and "method \<noteq> []"
    and "\<forall>r \<in> set (ignoreUrls config). \<not> global (regexps w r) \<and> \<not> sticky (regexps w r)"
    and "list_ex (\<lambda>r. fst (RegExp_test (regexps w r) url)) (ignoreUrls config)"
    and "originalXhrSend p = Some f"
  shows "patched_send h config p body outcome (this, w) =
           (outcome, this, w\<lparr>outgoing := outgoing w @ [XhrSendCall f body]\<rparr>)"
proof -
  have m: "matchesAny url (ignoreUrls config) (regexps w) = (True, regexps w)"
    using matchesAny_flagless[OF assms(5), of url] assms(6) by simp
  show ?thesis
    by (simp add: patched_send_ignored[OF assms(1-4) m assms(7)])
qed

text \<open>
  C6. The property: a request whose resolved URL matches an exclusion pattern creates no
  span and goes to the original function as it came. The code asks \<open>pattern.test(url)\<close>,
  which under the \<open>g\<close> flag answers by \<open>lastIndex\<close>: with the single exclusion pattern
  \<open>/\/t/g\<close>, which matches \<open>https://c.test/t\<close>, the first request to that URL is passed
  on untouched and the second is instrumented (a span is started for it), through
  \<open>fetch\<close> and through \<open>send\<close> alike. (With patterns that carry no flag the property
  holds: \<open>patched_fetch_ignored_flagless\<close>, \<open>patched_send_ignored_flagless\<close>.)
\<close>

theorem C6_global_pattern_ignores_every_other_request:
  "fst (RegExp_test (literal ''/t'' True) ''https://c.test/t'') \<and>
   (let first = patched_fetch example_host global_ignore_config example_plugin
                  (InputString ''https://c.test/t'') None
                  (Inr \<lparr>status = 200, ok = True, content_length = None\<rparr>) global_world;
        second = patched_fetch example_host global_ignore_config example_plugin
                   (InputString ''https://c.test/t'') None
                   (Inr \<lparr>status = 200, ok = True, content_length = None\<rparr>) (snd first)
    in calls (trace (snd first)) = [] \<and>
       outgoing (snd first) = [FetchCall (Host 0) (InputString ''https://c.test/t'') None] \<and>
       calls (trace (snd second)) =
         [StartSpan 0 ''HTTP GET'' None
            [(''http.method'', AStr ''GET''), (''http.url'', AStr ''https://c.test/t'')],
          SetAttributes 0
            [(''http.status_code'', ANum 200), (''http.response.content_length'', ANum 0)],
          SetStatus 0 OK None,
          End 0 None]) \<and>
   (let first = patched_send example_host global_ignore_config example_plugin None (Inr ())
                  (example_opened ''https://c.test/t'', global_world);
        second = patched_send example_host global_ignore_config example_plugin None (Inr ())
                   (example_opened ''https://c.test/t'', snd (snd first))
    in calls (trace (snd (snd first))) = [] \<and>
       listeners (fst (snd first)) = [] \<and>
       calls (trace (snd (snd second))) =
         [StartSpan 0 ''HTTP GET'' None
            [(''http.method'', AStr ''GET''), (''http.url'', AStr ''https://c.test/t'')]] \<and>
       listeners (fst (snd second)) =
         [(''loadend'', LoadendListener 0), (''error'', ErrorListener 0)])"
proof -
  let ?url = "''https://c.test/t''"
  let ?used = "(\<lambda>r. literal ''/t'' True)(0 := (literal ''/t'' True)\<lparr>lastIndex := 16\<rparr>)"
  have r: "resolveUrl example_host (InputString ?url) = Inr ?url"
    by (rule example_resolve)
  have f: "originalFetch example_plugin = Some (Host 0)"
    "originalXhrSend example_plugin = Some (Host 2)"
    by (simp_all add: example_plugin_def)
  have i1: "matchesAny ?url (ignoreUrls global_ignore_config) (regexps global_world)
              = (True, ?used)"
    by (simp only: global_configs global_world_parts global_store_first)
  have i2: "matchesAny ?url (ignoreUrls global_ignore_config) ?used
              = (False, \<lambda>r. literal ''/t'' True)"
    by (simp only: global_configs global_store_second)
  have p2: "matchesAny ?url (propagateToUrls global_ignore_config) (\<lambda>r. literal ''/t'' True)
              = (False, \<lambda>r. literal ''/t'' True)"
    by (simp add: global_configs)
  note first = patched_fetch_ignored[OF r i1 f(1),
      where init = None and outcome = "Inr \<lparr>status = 200, ok = True, content_length = None\<rparr>"]
  have i2': "matchesAny ?url (ignoreUrls global_ignore_config)
               (regexps (snd (patched_fetch example_host global_ignore_config example_plugin
                  (InputString ?url) None
                  (Inr \<lparr>status = 200, ok = True, content_length = None\<rparr>) global_world)))
             = (False, \<lambda>r. literal ''/t'' True)"
    by (simp add: first i2)
  note second = patched_fetch_instrumented[OF r i2' p2 f(1),
      where init = None and outcome = "Inr \<lparr>status = 200, ok = True, content_length = None\<rparr>"]
  have fetch: "let first = patched_fetch example_host global_ignore_config example_plugin
                  (InputString ?url) None
                  (Inr \<lparr>status = 200, ok = True, content_length = None\<rparr>) global_world;
        second = patched_fetch example_host global_ignore_config example_plugin
                   (InputString ?url) None
                   (Inr \<lparr>status = 200, ok = True, content_length = None\<rparr>) (snd first)
    in calls (trace (snd first)) = [] \<and>
       outgoing (snd first) = [FetchCall (Host 0) (InputString ?url) None] \<and>
       calls (trace (snd second)) =
         [StartSpan 0 ''HTTP GET'' None
            [(''http.method'', AStr ''GET''), (''http.url'', AStr ?url)],
          SetAttributes 0
            [(''http.status_code'', ANum 200), (''http.response.content_length'', ANum 0)],
          SetStatus 0 OK None,
          End 0 None]"
    unfolding Let_def
    by (simp add: second)
      (simp add: first global_world_parts new_tracer_def resolveMethod_def)
  note o = example_opened_parts[of ?url]
  note sfirst = patched_send_ignored[OF o(1) o(2) _ _ i1 f(2),
      where h = example_host and body = None and outcome = "Inr ()"]
  have i2'': "matchesAny ?url (ignoreUrls global_ignore_config)
               (regexps (snd (snd (patched_send example_host global_ignore_config
                  example_plugin None (Inr ()) (example_opened ?url, global_world)))))
             = (False, \<lambda>r. literal ''/t'' True)"
    by (simp add: sfirst i2)
  note ssecond = patched_send_instrumented[OF o(1) o(2) _ _ i2'' p2 f(2),
      where h = example_host and body = None and outcome = "Inr ()"]
  have send: "let first = patched_send example_host global_ignore_config example_plugin None
                  (Inr ()) (example_opened ?url, global_world);
        second = patched_send example_host global_ignore_config example_plugin None (Inr ())
                   (example_opened ?url, snd (snd first))
    in calls (trace (snd (snd first))) = [] \<and>
       listeners (fst (snd first)) = [] \<and>
       calls (trace (snd (snd second))) =
         [StartSpan 0 ''HTTP GET'' None
            [(''http.method'', AStr ''GET''), (''http.url'', AStr ?url)]] \<and>
       listeners (fst (snd second)) =
         [(''loadend'', LoadendListener 0), (''error'', ErrorListener 0)]"
    unfolding Let_def
    by (simp add: ssecond) (simp add: sfirst o global_world_parts new_tracer_def)
  have "fst (RegExp_test (literal ''/t'' True) ?url)"
    by (simp add: global_pattern_first)
  with fetch send show ?thesis
    by blast
qed

text \<open>
  C10. A request on which the patched \<open>open\<close> never ran carries neither a URL nor a
  method; the patched \<open>send\<close> then calls the original \<open>send\<close> with the body and does
  nothing else: no span is started, no header is set and no listener is added.
\<close>

theorem C10_send_without_captured_open_passes_through:
  assumes "otel_url this = None \<or> otel_method this = None"
    and "originalXhrSend p = Some f"
  shows "patched_send h config p body outcome (this, w) =
           (outcome, this, w\<lparr>outgoing := outgoing w @ [XhrSendCall f body]\<rparr>)"
  using assms
  by (auto simp: patched_send_def Let_def call_originalXhrSend_def split: option.splits)

theorem C10_send_without_captured_open_passes_through_witness:
  "otel_url new_xhr = None \<and> otel_method new_xhr = None \<and>
   originalXhrSend example_plugin = Some (Host 2) \<and>
   patched_send example_host example_config example_plugin (Some ''payload'') (Inr ())
       (new_xhr, new_world) =
     (Inr (), new_xhr,
      \<lparr>trace = new_tracer, outgoing = [XhrSendCall (Host 2) (Some ''payload'')],
       regexps = example_regexps\<rparr>)"
proof -
  have u: "otel_url new_xhr = None \<or> otel_method new_xhr = None"
    by (simp add: new_xhr_def)
  have f: "originalXhrSend example_plugin = Some (Host 2)"
    by (simp add: example_plugin_def)
  show ?thesis
    using C10_send_without_captured_open_passes_through
        [OF u f, of example_host example_config "Some ''payload''" "Inr ()" new_world] f
    by (simp add: new_xhr_def new_world_def)
qed

end
